theory Spec2Isabelle
  imports Complex_Main "HOL-Library.Word" "HOL-Library.Log_Nat"
begin

section \<open>Data model (src/src/types/index.ts, src/src/db/index.ts)\<close>

text \<open>
  Timestamps are milliseconds since the epoch (\<open>Date.now()\<close> and the INTEGER columns).
  A JavaScript number is the rational or integer it stands for: the \<open>length\<close> of a
  config is any rational (every finite double is one), \<open>expiresIn\<close> and \<open>rateLimit\<close>
  are integers. Where the code adds or multiplies, the result is rounded as a double is
  (\<open>to_double\<close> below); results of 2^1024 and beyond, which the code turns into
  \<open>Infinity\<close>, are outside this model. A nullable column or field is an \<open>option\<close>.
  The JSON text of \<open>metadata\<close> is kept as an opaque string; \<open>scopes\<close> is kept as the list
  that \<open>JSON.parse (JSON.stringify scopes)\<close> gives back.
\<close>

record ApiKeyConfig =
  cfg_prefix :: "string option"
  cfg_length :: "rat option"
  cfg_charset :: "string option"
  cfg_expiresIn :: "int option"
  cfg_metadata :: "string option"
  cfg_scopes :: "string list option"
  cfg_name :: "string option"
  cfg_rateLimit :: "int option"

text \<open>A row of table \<open>api_keys\<close> (interface \<open>ApiKeyRow\<close>).\<close>

record ApiKeyRow =
  row_id :: string
  key_hash :: string
  row_prefix :: string
  row_suffix :: string
  row_name :: "string option"
  created_at :: int
  expires_at :: "int option"
  last_used_at :: "int option"
  is_active :: int
  row_metadata :: string
  row_scopes :: "string list"
  rate_limit :: "int option"

text \<open>
  A \<open>Date\<close> object: a time value, or the Invalid Date that \<open>new Date(n)\<close> gives for
  \<open>n\<close> beyond 8.64e15 milliseconds either side of the epoch.
\<close>

datatype Date = Date int | Invalid_Date

text \<open>Interface \<open>ApiKey\<close>.\<close>

record ApiKey =
  key_id :: string
  keyHash :: string
  key_prefix :: string
  key_suffix :: string
  key_name :: "string option"
  createdAt :: Date
  expiresAt :: "Date option"
  lastUsedAt :: "Date option"
  isActive :: bool
  key_metadata :: string
  key_scopes :: "string list"
  rateLimit :: "int option"

record ApiKeyCreateResult =
  cr_key :: string
  cr_record :: ApiKey

datatype reason = not_found | expired | revoked | rate_limited

record ApiKeyValidationResult =
  valid :: bool
  reason :: "reason option"
  key :: "ApiKey option"

record validate_options =
  updateLastUsed :: "bool option"
  checkRateLimit_opt :: "bool option"

record stats =
  total :: nat
  active :: nat
  expired_count :: nat
  revoked_count :: nat

text \<open>
  What a call can throw: the \<open>RangeError\<close> of \<open>new Uint8Array\<close> on a length it cannot
  allocate, the \<open>TypeError\<close> of reading a property of \<open>undefined\<close>, and the constraint
  error of an INSERT that repeats a PRIMARY KEY or UNIQUE value.
\<close>

datatype error = RangeError | TypeError | ConstraintError

text \<open>
  The state the service works on: the two tables of the database and the two sources of
  randomness. Table \<open>rate_limit_records\<close> has PRIMARY KEY \<open>(key_id, window_start)\<close>, so it
  is a map from that pair to \<open>request_count\<close>. \<open>random_values\<close> is the sequence of bytes
  that \<open>crypto.getRandomValues\<close> has yet to hand out, \<open>random_uuids\<close> the sequence of
  results \<open>crypto.randomUUID\<close> has yet to return; drawing advances the sequence.
  \<open>max_array_length\<close> is the longest typed array the runtime allocates: a platform
  constant the source does not fix, so it is left open here.
\<close>

record world =
  api_keys :: "ApiKeyRow list"
  rate_limit_records :: "string \<times> int \<Rightarrow> int option"
  random_values :: "nat \<Rightarrow> 8 word"
  random_uuids :: "nat \<Rightarrow> string"
  max_array_length :: int

section \<open>Key generation (src/src/services/rues.service.ts)\<close>

text \<open>
  What \<open>CHARSETS[name]\<close> evaluates to. \<open>CHARSETS\<close> is an object literal, so besides its
  five own keys a lookup finds the members every object inherits from
  \<open>Object.prototype\<close> (functions, and the prototype object itself for \<open>__proto__\<close>);
  any other name gives \<open>undefined\<close>.
\<close>

datatype charset_value = Chars string | Inherited | Undefined

definition Object_prototype_names :: "string list" where
  "Object_prototype_names =
     [''constructor'', ''toString'', ''toLocaleString'', ''valueOf'', ''hasOwnProperty'',
      ''isPrototypeOf'', ''propertyIsEnumerable'', ''__proto__'', ''__defineGetter__'',
      ''__defineSetter__'', ''__lookupGetter__'', ''__lookupSetter__'']"

definition CHARSETS :: "string \<Rightarrow> charset_value" where
  "CHARSETS c =
     (if c = ''alphanumeric'' then
        Chars ''abcdefghijklmnopqrstuvwxyzABCDEFGHIJKLMNOPQRSTUVWXYZ0123456789''
      else if c = ''alphanumeric_lower'' then Chars ''abcdefghijklmnopqrstuvwxyz0123456789''
      else if c = ''alphanumeric_upper'' then Chars ''ABCDEFGHIJKLMNOPQRSTUVWXYZ0123456789''
      else if c = ''hex'' then Chars ''0123456789abcdef''
      else if c = ''base64url'' then
        Chars ''abcdefghijklmnopqrstuvwxyzABCDEFGHIJKLMNOPQRSTUVWXYZ0123456789-_''
      else if c \<in> set Object_prototype_names then Inherited
      else Undefined)"

text \<open>\<open>{ ...DEFAULT_CONFIG, ...config }\<close>: a field the caller left out takes its default.\<close>

definition merged_prefix :: "ApiKeyConfig \<Rightarrow> string" where
  "merged_prefix config = (case cfg_prefix config of None \<Rightarrow> ''rapids_'' | Some p \<Rightarrow> p)"

definition merged_length :: "ApiKeyConfig \<Rightarrow> rat" where
  "merged_length config = (case cfg_length config of None \<Rightarrow> 32 | Some n \<Rightarrow> n)"

definition merged_charset :: "ApiKeyConfig \<Rightarrow> string" where
  "merged_charset config = (case cfg_charset config of None \<Rightarrow> ''base64url'' | Some c \<Rightarrow> c)"

definition merged_metadata :: "ApiKeyConfig \<Rightarrow> string" where
  "merged_metadata config = (case cfg_metadata config of None \<Rightarrow> ''{}'' | Some m \<Rightarrow> m)"

definition merged_scopes :: "ApiKeyConfig \<Rightarrow> string list" where
  "merged_scopes config = (case cfg_scopes config of None \<Rightarrow> [] | Some s \<Rightarrow> s)"

text \<open>
  The loop of \<open>generateRandomString\<close> over the filled array: \<open>result += charset[value %
  charset.length]\<close>. With \<open>charset\<close> undefined the first iteration throws. With an
  inherited member (a function or the prototype object) \<open>charset.length\<close> is a small
  number or undefined and \<open>charset[...]\<close> finds no such property, so each iteration
  appends the text of \<open>undefined\<close>; the empty string does the same.
\<close>

fun random_chars :: "8 word list \<Rightarrow> charset_value \<Rightarrow> error + string" where
  "random_chars [] charset = Inr []"
| "random_chars (v # vs) Undefined = Inl TypeError"
| "random_chars (v # vs) Inherited =
     (case random_chars vs Inherited of
        Inl e \<Rightarrow> Inl e
      | Inr rest \<Rightarrow> Inr (''undefined'' @ rest))"
| "random_chars (v # vs) (Chars cs) =
     (case random_chars vs (Chars cs) of
        Inl e \<Rightarrow> Inl e
      | Inr rest \<Rightarrow>
          Inr ((if cs = [] then ''undefined'' else [cs ! (unat v mod length cs)]) @ rest))"

text \<open>
  \<open>new Uint8Array(length)\<close> turns the number into an array length by dropping its
  fraction (towards zero) and throws a \<open>RangeError\<close> when the result is negative or more
  than the runtime allocates.
\<close>

definition ToIndex :: "rat \<Rightarrow> int" where
  "ToIndex x = (if x < 0 then - \<lfloor>- x\<rfloor> else \<lfloor>x\<rfloor>)"

text \<open>
  \<open>generateRandomString\<close>: allocate the array, fill it from the random source, map each
  byte to a character. The random source is advanced only once the allocation has
  passed. The loop runs while \<open>i < length\<close>; beyond the array \<open>array[i]\<close> is undefined
  and the iteration adds nothing, so the loop is the one over the array.
\<close>

definition generateRandomString ::
  "rat \<Rightarrow> charset_value \<Rightarrow> world \<Rightarrow> (error + string) \<times> world" where
  "generateRandomString len charset w =
     (let n = ToIndex len in
      if n < 0 \<or> max_array_length w < n then (Inl RangeError, w)
      else
        let array = map (random_values w) [0..<nat n];
            w' = w\<lparr>random_values := (\<lambda>i. random_values w (i + nat n))\<rparr>
        in (random_chars array charset, w'))"

definition generateId :: "world \<Rightarrow> string \<times> world" where
  "generateId w = (random_uuids w 0, w\<lparr>random_uuids := (\<lambda>i. random_uuids w (Suc i))\<rparr>)"

text \<open>\<open>rawKey.slice(-4)\<close>: the last four characters, the whole string when it is shorter.\<close>

definition slice_last4 :: "string \<Rightarrow> string" where
  "slice_last4 s = drop (length s - 4) s"

text \<open>
  A sum or product of numbers is the nearest double, ties to the even significand:
  integers up to 2^53 in size are exact, larger ones keep their 53 leading bits.
\<close>

definition to_double :: "int \<Rightarrow> int" where
  "to_double x =
     (let a = \<bar>x\<bar>; k = bitlen a - 53 in
      if k \<le> 0 then x
      else
        let q = a div 2 ^ nat k; r = a mod 2 ^ nat k; h = 2 ^ (nat k - 1);
            q' = (if h < r \<or> (r = h \<and> odd q) then q + 1 else q)
        in sgn x * (q' * 2 ^ nat k))"

text \<open>\<open>new Date(n)\<close>: the time value \<open>n\<close>, or the Invalid Date beyond 8.64e15.\<close>

definition new_Date :: "int \<Rightarrow> Date" where
  "new_Date n = (if \<bar>n\<bar> \<le> 8640000000000000 then Date n else Invalid_Date)"

text \<open>
  \<open>rowToApiKey\<close>. \<open>row.expires_at ? new Date(row.expires_at) : null\<close> tests the number
  for truthiness, so a stored 0 reads back as null; \<open>is_active === 1\<close> gives the flag.
\<close>

definition truthy_num :: "int option \<Rightarrow> int option" where
  "truthy_num v = (case v of None \<Rightarrow> None | Some n \<Rightarrow> if n = 0 then None else Some n)"

definition rowToApiKey :: "ApiKeyRow \<Rightarrow> ApiKey" where
  "rowToApiKey row =
     \<lparr>key_id = row_id row, keyHash = key_hash row, key_prefix = row_prefix row,
      key_suffix = row_suffix row, key_name = row_name row,
      createdAt = new_Date (created_at row),
      expiresAt = map_option new_Date (truthy_num (expires_at row)),
      lastUsedAt = map_option new_Date (truthy_num (last_used_at row)),
      isActive = (is_active row = 1), key_metadata = row_metadata row,
      key_scopes = row_scopes row, rateLimit = rate_limit row\<rparr>"

section \<open>ApiKeyService\<close>

text \<open>
  The INSERT of \<open>create\<close>: \<open>id\<close> is the PRIMARY KEY and \<open>key_hash\<close> is UNIQUE, so a row
  that repeats either is refused and the table is left as it was.
\<close>

definition insert_api_key :: "ApiKeyRow \<Rightarrow> world \<Rightarrow> (error + unit) \<times> world" where
  "insert_api_key row w =
     (if (\<exists>r \<in> set (api_keys w). row_id r = row_id row \<or> key_hash r = key_hash row)
      then (Inl ConstraintError, w)
      else (Inr (), w\<lparr>api_keys := api_keys w @ [row]\<rparr>))"

text \<open>
  \<open>create\<close>. \<open>hashKey\<close> (hex-encoded SHA-256, from the platform's \<open>crypto.subtle\<close>) is the
  parameter \<open>hashKey\<close>; \<open>now\<close> is the reading of \<open>Date.now()\<close>. The expiry is
  \<open>now + expiresIn * 1000\<close> in double arithmetic.
\<close>

definition create ::
  "(string \<Rightarrow> string) \<Rightarrow> int \<Rightarrow> ApiKeyConfig \<Rightarrow> world \<Rightarrow> (error + ApiKeyCreateResult) \<times> world"
  where
  "create hashKey now config w =
     (let charset = CHARSETS (merged_charset config) in
      case generateRandomString (merged_length config) charset w of
        (Inl e, w1) \<Rightarrow> (Inl e, w1)
      | (Inr randomPart, w1) \<Rightarrow>
          let rawKey = merged_prefix config @ randomPart;
              keyHash = hashKey rawKey;
              expiresAt = (case truthy_num (cfg_expiresIn config) of
                             None \<Rightarrow> None
                           | Some e \<Rightarrow> Some (to_double (now + to_double (e * 1000))));
              (id, w2) = generateId w1;
              suffix = slice_last4 rawKey;
              row = \<lparr>row_id = id, key_hash = keyHash, row_prefix = merged_prefix config,
                     row_suffix = suffix, row_name = cfg_name config, created_at = now,
                     expires_at = expiresAt, last_used_at = None, is_active = 1,
                     row_metadata = merged_metadata config,
                     row_scopes = merged_scopes config,
                     rate_limit = cfg_rateLimit config\<rparr>
          in case insert_api_key row w2 of
               (Inl e, w3) \<Rightarrow> (Inl e, w3)
             | (Inr u, w3) \<Rightarrow>
                 (Inr \<lparr>cr_key = rawKey,
                       cr_record =
                         \<lparr>key_id = id, keyHash = keyHash, key_prefix = merged_prefix config,
                          key_suffix = suffix, key_name = cfg_name config,
                          createdAt = new_Date now,
                          expiresAt = map_option new_Date (truthy_num expiresAt),
                          lastUsedAt = None,
                          isActive = True, key_metadata = merged_metadata config,
                          key_scopes = merged_scopes config,
                          rateLimit = cfg_rateLimit config\<rparr>\<rparr>, w3))"

text \<open>\<open>Math.floor(now / 60000) * 60000\<close>.\<close>

definition windowStart :: "int \<Rightarrow> int" where
  "windowStart now = (now div 60000) * 60000"

text \<open>
  \<open>checkRateLimit\<close>: delete the old windows, read the count, and either report the key
  as rate limited (True) or run the upsert and report it as allowed (False).
\<close>

definition checkRateLimit :: "int \<Rightarrow> string \<Rightarrow> int \<Rightarrow> world \<Rightarrow> bool \<times> world" where
  "checkRateLimit now keyId limit w =
     (let ws = windowStart now;
          cleaned = (\<lambda>k. if snd k < ws - 60000 then None else rate_limit_records w k);
          w1 = w\<lparr>rate_limit_records := cleaned\<rparr>
      in case cleaned (keyId, ws) of
           None \<Rightarrow> (False, w1\<lparr>rate_limit_records := cleaned((keyId, ws) \<mapsto> 1)\<rparr>)
         | Some request_count \<Rightarrow>
             if request_count \<ge> limit then (True, w1)
             else (False, w1\<lparr>rate_limit_records := cleaned((keyId, ws) \<mapsto> request_count + 1)\<rparr>))"

text \<open>\<open>UPDATE api_keys SET last_used_at = ? WHERE id = ?\<close>.\<close>

definition set_last_used :: "string \<Rightarrow> int \<Rightarrow> world \<Rightarrow> world" where
  "set_last_used keyId now w =
     w\<lparr>api_keys := map (\<lambda>r. if row_id r = keyId then r\<lparr>last_used_at := Some now\<rparr> else r)
                       (api_keys w)\<rparr>"

text \<open>
  \<open>validate\<close>. The options default to true. \<open>stmt.get\<close> returns the first row the SELECT
  finds. \<open>now\<close> stands for the clock readings of one call, so \<open>new Date()\<close> is
  \<open>Date now\<close>. \<open>apiKey.expiresAt < new Date()\<close> compares time values and is false for
  an Invalid Date.
\<close>

definition validate ::
  "(string \<Rightarrow> string) \<Rightarrow> int \<Rightarrow> string \<Rightarrow> validate_options \<Rightarrow> world
     \<Rightarrow> ApiKeyValidationResult \<times> world" where
  "validate hashKey now k options w =
     (let upd = (case updateLastUsed options of None \<Rightarrow> True | Some b \<Rightarrow> b);
          chk = (case checkRateLimit_opt options of None \<Rightarrow> True | Some b \<Rightarrow> b)
      in case find (\<lambda>r. key_hash r = hashKey k) (api_keys w) of
           None \<Rightarrow> (\<lparr>valid = False, reason = Some not_found, key = None\<rparr>, w)
         | Some row \<Rightarrow>
             let apiKey = rowToApiKey row in
             if \<not> isActive apiKey then
               (\<lparr>valid = False, reason = Some revoked, key = Some apiKey\<rparr>, w)
             else if (case expiresAt apiKey of
                        None \<Rightarrow> False
                      | Some Invalid_Date \<Rightarrow> False
                      | Some (Date e) \<Rightarrow> e < now) then
               (\<lparr>valid = False, reason = Some expired, key = Some apiKey\<rparr>, w)
             else
               let (isRateLimited, w1) =
                     (case truthy_num (rateLimit apiKey) of
                        None \<Rightarrow> (False, w)
                      | Some limit \<Rightarrow>
                          if chk then checkRateLimit now (key_id apiKey) limit w
                          else (False, w))
               in if isRateLimited then
                    (\<lparr>valid = False, reason = Some rate_limited, key = Some apiKey\<rparr>, w1)
                  else if upd then
                    (\<lparr>valid = True, reason = None,
                      key = Some (apiKey\<lparr>lastUsedAt := Some (Date now)\<rparr>)\<rparr>,
                     set_last_used (key_id apiKey) now w1)
                  else (\<lparr>valid = True, reason = None, key = Some apiKey\<rparr>, w1))"

text \<open>
  \<open>revoke\<close>: \<open>result.changes\<close> is the number of rows the WHERE clause selects, whatever
  their former value.
\<close>

definition revoke :: "string \<Rightarrow> world \<Rightarrow> bool \<times> world" where
  "revoke keyId w =
     (let changes = length (filter (\<lambda>r. row_id r = keyId) (api_keys w))
      in (changes > 0,
          w\<lparr>api_keys := map (\<lambda>r. if row_id r = keyId then r\<lparr>is_active := 0\<rparr> else r)
                            (api_keys w)\<rparr>))"

definition getById :: "string \<Rightarrow> world \<Rightarrow> ApiKey option" where
  "getById keyId w = map_option rowToApiKey (find (\<lambda>r. row_id r = keyId) (api_keys w))"

text \<open>\<open>SELECT COUNT(*) ... WHERE\<close>: one pass over the table.\<close>

primrec count_where :: "(ApiKeyRow \<Rightarrow> bool) \<Rightarrow> ApiKeyRow list \<Rightarrow> nat" where
  "count_where P [] = 0"
| "count_where P (r # rs) = (if P r then Suc (count_where P rs) else count_where P rs)"

definition getStats :: "int \<Rightarrow> world \<Rightarrow> stats" where
  "getStats now w =
     \<lparr>total = count_where (\<lambda>r. True) (api_keys w),
      active = count_where
                 (\<lambda>r. is_active r = 1 \<and>
                      (case expires_at r of None \<Rightarrow> True | Some e \<Rightarrow> e > now))
                 (api_keys w),
      expired_count = count_where
                 (\<lambda>r. case expires_at r of None \<Rightarrow> False | Some e \<Rightarrow> e \<le> now)
                 (api_keys w),
      revoked_count = count_where (\<lambda>r. is_active r = 0) (api_keys w)\<rparr>"

text \<open>
  A run of \<open>checkRateLimit\<close> calls for one key, one call per clock reading, each on the
  store the former left; it returns the answers in order.
\<close>

fun rate_calls :: "int list \<Rightarrow> string \<Rightarrow> int \<Rightarrow> world \<Rightarrow> bool list \<times> world" where
  "rate_calls [] keyId limit w = ([], w)"
| "rate_calls (t # ts) keyId limit w =
     (let (b, w1) = checkRateLimit t keyId limit w;
          (bs, w2) = rate_calls ts keyId limit w1
      in (b # bs, w2))"

text \<open>
  The row that the INSERT of \<open>create\<close> writes, given the random characters \<open>body\<close>
  that \<open>generateRandomString\<close> returned (\<open>create_unfold\<close> below shows it is that row).
\<close>

definition new_row :: "(string \<Rightarrow> string) \<Rightarrow> int \<Rightarrow> ApiKeyConfig \<Rightarrow> world \<Rightarrow> string \<Rightarrow> ApiKeyRow" where
  "new_row hashKey now config w body =
     \<lparr>row_id = random_uuids w 0, key_hash = hashKey (merged_prefix config @ body),
      row_prefix = merged_prefix config,
      row_suffix = slice_last4 (merged_prefix config @ body), row_name = cfg_name config,
      created_at = now,
      expires_at = (case truthy_num (cfg_expiresIn config) of
                             None \<Rightarrow> None
                           | Some e \<Rightarrow> Some (to_double (now + to_double (e * 1000)))),
      last_used_at = None, is_active = 1,
      row_metadata = merged_metadata config,
      row_scopes = merged_scopes config,
      rate_limit = cfg_rateLimit config\<rparr>"

section \<open>Example stores\<close>

text \<open>
  Concrete inputs on which the theorems below are run. \<open>toy_hash\<close> stands in for SHA-256
  there, and 2^32 for the longest array; the theorems themselves hold for every hash
  function and every such limit.
\<close>

definition toy_hash :: "string \<Rightarrow> string" where
  "toy_hash s = ''h:'' @ s"

definition row_live :: ApiKeyRow where
  "row_live =
     \<lparr>row_id = ''k1'', key_hash = ''h:rapids_live'', row_prefix = ''rapids_'',
      row_suffix = ''live'', row_name = None, created_at = 1000, expires_at = None,
      last_used_at = None, is_active = 1, row_metadata = ''{}'', row_scopes = [],
      rate_limit = Some 2\<rparr>"

definition row_gone :: ApiKeyRow where
  "row_gone =
     \<lparr>row_id = ''k2'', key_hash = ''h:rapids_gone'', row_prefix = ''rapids_'',
      row_suffix = ''gone'', row_name = None, created_at = 1000, expires_at = Some 5000,
      last_used_at = None, is_active = 0, row_metadata = ''{}'', row_scopes = [],
      rate_limit = Some 2\<rparr>"

definition store2 :: world where
  "store2 =
     \<lparr>api_keys = [row_live, row_gone], rate_limit_records = Map.empty,
      random_values = (\<lambda>i. of_nat i), random_uuids = (\<lambda>i. ''uuid-'' @ replicate i CHR ''x''),
      max_array_length = 4294967296\<rparr>"

definition row_old :: ApiKeyRow where
  "row_old =
     \<lparr>row_id = ''k3'', key_hash = ''h:rapids_old'', row_prefix = ''rapids_'',
      row_suffix = ''_old'', row_name = None, created_at = 1000, expires_at = Some 5000,
      last_used_at = None, is_active = 1, row_metadata = ''{}'', row_scopes = [],
      rate_limit = Some 2\<rparr>"

definition row_busy :: ApiKeyRow where
  "row_busy =
     \<lparr>row_id = ''k4'', key_hash = ''h:rapids_busy'', row_prefix = ''rapids_'',
      row_suffix = ''busy'', row_name = None, created_at = 1000, expires_at = None,
      last_used_at = None, is_active = 1, row_metadata = ''{}'', row_scopes = [],
      rate_limit = Some 2\<rparr>"

text \<open>
  \<open>store4\<close>: in the window that starts at 120000 the keys \<open>k2\<close>, \<open>k3\<close> and \<open>k4\<close> have
  used up their limit of 2.
\<close>

definition store4 :: world where
  "store4 =
     \<lparr>api_keys = [row_live, row_gone, row_old, row_busy],
      rate_limit_records =
        [(''k2'', 120000) \<mapsto> 2, (''k3'', 120000) \<mapsto> 2, (''k4'', 120000) \<mapsto> 2],
      random_values = (\<lambda>i. of_nat i), random_uuids = (\<lambda>i. ''uuid-'' @ replicate i CHR ''x''),
      max_array_length = 4294967296\<rparr>"

text \<open>
  \<open>store_edge\<close>: the key \<open>k3\<close>, which expires at 5000, has used up its limit of 2 in the
  window that starts at 0.
\<close>

definition store_edge :: world where
  "store_edge =
     \<lparr>api_keys = [row_old], rate_limit_records = [(''k3'', 0) \<mapsto> 2],
      random_values = (\<lambda>i. of_nat i), random_uuids = (\<lambda>i. ''uuid-'' @ replicate i CHR ''x''),
      max_array_length = 4294967296\<rparr>"

definition default_options :: validate_options where
  "default_options = \<lparr>updateLastUsed = None, checkRateLimit_opt = None\<rparr>"

definition row_off :: ApiKeyRow where
  "row_off =
     \<lparr>row_id = ''k5'', key_hash = ''h:rapids_off'', row_prefix = ''rapids_'',
      row_suffix = ''_off'', row_name = None, created_at = 1000, expires_at = None,
      last_used_at = None, is_active = 0, row_metadata = ''{}'', row_scopes = [],
      rate_limit = None\<rparr>"

text \<open>
  \<open>store_stats\<close>: two active keys, one revoked key that never expires, one expired key
  that was never revoked.
\<close>

definition store_stats :: world where
  "store_stats =
     \<lparr>api_keys = [row_live, row_busy, row_off, row_old], rate_limit_records = Map.empty,
      random_values = (\<lambda>i. of_nat i), random_uuids = (\<lambda>i. ''uuid-'' @ replicate i CHR ''x''),
      max_array_length = 4294967296\<rparr>"

text \<open>
  Creation configs: \<open>cfg_zero\<close> asks for eight hex characters, \<open>expiresIn\<close> 0 and a
  limit of 3; \<open>cfg_minute\<close> is the same with \<open>expiresIn\<close> 60.
\<close>

definition cfg_zero :: ApiKeyConfig where
  "cfg_zero =
     \<lparr>cfg_prefix = None, cfg_length = Some 8, cfg_charset = Some ''hex'',
      cfg_expiresIn = Some 0, cfg_metadata = None, cfg_scopes = None, cfg_name = None,
      cfg_rateLimit = Some 3\<rparr>"

definition cfg_minute :: ApiKeyConfig where
  "cfg_minute = cfg_zero\<lparr>cfg_expiresIn := Some 60\<rparr>"




definition cfg_short :: ApiKeyConfig where
  "cfg_short =
     \<lparr>cfg_prefix = Some [], cfg_length = Some 4, cfg_charset = Some ''hex'',
      cfg_expiresIn = None, cfg_metadata = None, cfg_scopes = None, cfg_name = None,
      cfg_rateLimit = None\<rparr>"

definition store0 :: world where
  "store0 =
     \<lparr>api_keys = [], rate_limit_records = Map.empty,
      random_values = (\<lambda>i. of_nat i), random_uuids = (\<lambda>i. ''uuid-'' @ replicate i CHR ''x''),
      max_array_length = 4294967296\<rparr>"



section \<open>Reading the model\<close>

lemma isActive_rowToApiKey [simp]: "isActive (rowToApiKey r) = (is_active r = 1)"
  by (simp add: rowToApiKey_def)

lemma key_id_rowToApiKey [simp]: "key_id (rowToApiKey r) = row_id r"
  by (simp add: rowToApiKey_def)

lemma expiresAt_rowToApiKey [simp]:
  "expiresAt (rowToApiKey r) = map_option new_Date (truthy_num (expires_at r))"
  by (simp add: rowToApiKey_def)

lemma expiry_test:
  "(case d of None \<Rightarrow> False | Some Invalid_Date \<Rightarrow> False | Some (Date e) \<Rightarrow> e < now) =
   (\<exists>e. d = Some (Date e) \<and> e < now)"
  by (cases d) (auto split: Date.splits)

lemma new_Date_eq_Date: "(new_Date n = Date e) = (n = e \<and> \<bar>n\<bar> \<le> 8640000000000000)"
  by (auto simp: new_Date_def)

lemma truthy_num_Some_iff: "(truthy_num v = Some n) = (v = Some n \<and> n \<noteq> 0)"
  by (cases v) (auto simp: truthy_num_def)

lemma rateLimit_rowToApiKey [simp]: "rateLimit (rowToApiKey r) = rate_limit r"
  by (simp add: rowToApiKey_def)

lemma find_SomeD: "find P xs = Some x \<Longrightarrow> P x \<and> x \<in> set xs"
  by (induction xs) (auto split: if_splits)

section \<open>revoke\<close>

lemma revoke_rows:
  "api_keys (snd (revoke keyId w)) =
     map (\<lambda>r. if row_id r = keyId then r\<lparr>is_active := 0\<rparr> else r) (api_keys w)"
  by (simp add: revoke_def Let_def)

lemma revoke_changes:
  "fst (revoke keyId w) = (\<exists>r \<in> set (api_keys w). row_id r = keyId)"
  by (auto simp: revoke_def Let_def filter_empty_conv)

lemma find_revoked:
  "find (\<lambda>r. row_id r = k)
        (map (\<lambda>r. if row_id r = k' then r\<lparr>is_active := 0\<rparr> else r) rs) =
   map_option (\<lambda>r. if row_id r = k' then r\<lparr>is_active := 0\<rparr> else r)
        (find (\<lambda>r. row_id r = k) rs)"
  by (induction rs) auto

lemma revoke_inactive:
  "\<forall>r \<in> set (api_keys (snd (revoke keyId w))).
        row_id r = keyId \<longrightarrow> is_active r = 0 \<and> \<not> isActive (rowToApiKey r)"
proof
  fix r assume "r \<in> set (api_keys (snd (revoke keyId w)))"
  then have "r \<in> (\<lambda>r. if row_id r = keyId then r\<lparr>is_active := 0\<rparr> else r) ` set (api_keys w)"
    unfolding revoke_rows set_map .
  then obtain r0 where r0: "r = (if row_id r0 = keyId then r0\<lparr>is_active := 0\<rparr> else r0)"
    by (rule imageE)
  show "row_id r = keyId \<longrightarrow> is_active r = 0 \<and> \<not> isActive (rowToApiKey r)"
  proof (cases "row_id r0 = keyId")
    case True
    with r0 show ?thesis by simp
  next
    case False
    with r0 show ?thesis by simp
  qed
qed

lemma revoke_getById:
  "getById keyId (snd (revoke keyId w)) =
     map_option (\<lambda>k. k\<lparr>isActive := False\<rparr>) (getById keyId w)"
proof (cases "find (\<lambda>r. row_id r = keyId) (api_keys w)")
  case None
  then show ?thesis by (simp add: getById_def revoke_rows find_revoked)
next
  case (Some r)
  then have "row_id r = keyId" by (auto dest: find_SomeD)
  with Some show ?thesis
    by (simp add: getById_def revoke_rows find_revoked rowToApiKey_def)
qed

lemma revoke_again:
  "fst (revoke keyId (snd (revoke keyId w))) = fst (revoke keyId w)"
proof -
  have "map row_id (api_keys (snd (revoke keyId w))) = map row_id (api_keys w)"
    unfolding revoke_rows by (induction "api_keys w") auto
  then have "set (map row_id (api_keys (snd (revoke keyId w)))) = set (map row_id (api_keys w))"
    by simp
  then have "row_id ` set (api_keys (snd (revoke keyId w))) = row_id ` set (api_keys w)"
    by (simp only: set_map)
  moreover have "(\<exists>r\<in>A. row_id r = keyId) = (keyId \<in> row_id ` A)" for A :: "ApiKeyRow set"
    by auto
  ultimately show ?thesis unfolding revoke_changes by simp
qed

text \<open>
  Claim C7. \<open>revoke keyId\<close> returns true exactly when a row with that id is in the
  table, whatever the row's former \<open>is_active\<close>; afterwards every row with that id is
  inactive, the other rows are as they were, \<open>getById\<close> shows the key with \<open>isActive\<close>
  false, and revoking once more returns the same answer.
\<close>

theorem revoke_true_iff_id_exists:
  "(fst (revoke keyId w) \<longleftrightarrow> (\<exists>r \<in> set (api_keys w). row_id r = keyId)) \<and>
   (\<forall>r \<in> set (api_keys (snd (revoke keyId w))).
        row_id r = keyId \<longrightarrow> is_active r = 0 \<and> \<not> isActive (rowToApiKey r)) \<and>
   api_keys (snd (revoke keyId w)) =
     map (\<lambda>r. if row_id r = keyId then r\<lparr>is_active := 0\<rparr> else r) (api_keys w) \<and>
   getById keyId (snd (revoke keyId w)) =
     map_option (\<lambda>k. k\<lparr>isActive := False\<rparr>) (getById keyId w) \<and>
   fst (revoke keyId (snd (revoke keyId w))) = fst (revoke keyId w)"
  using revoke_changes [of keyId w] revoke_inactive [of keyId w] revoke_rows [of keyId w]
    revoke_getById [of keyId w] revoke_again [of keyId w]
  by blast

text \<open>
  On \<open>store2\<close>: the active key \<open>k1\<close> and the already revoked key \<open>k2\<close> both give
  true and are inactive afterwards; the unknown id \<open>zz\<close> gives false.
\<close>

theorem revoke_true_iff_id_exists_witness:
  "fst (revoke ''k1'' store2) \<and> fst (revoke ''k2'' store2) \<and> \<not> fst (revoke ''zz'' store2) \<and>
   map is_active (api_keys (snd (revoke ''k1'' store2))) = [0, 0] \<and>
   map is_active (api_keys (snd (revoke ''k2'' store2))) = [1, 0] \<and>
   map is_active (api_keys (snd (revoke ''zz'' store2))) = [1, 0]"
  using revoke_true_iff_id_exists [of "''k1''" store2]
    revoke_true_iff_id_exists [of "''k2''" store2]
    revoke_true_iff_id_exists [of "''zz''" store2]
  by (simp add: store2_def row_live_def row_gone_def)

section \<open>checkRateLimit\<close>

lemma checkRateLimit_first:
  assumes "rate_limit_records w (keyId, windowStart t) = None"
  shows "fst (checkRateLimit t keyId limit w) = False"
    and "rate_limit_records (snd (checkRateLimit t keyId limit w)) (keyId, windowStart t) = Some 1"
  using assms by (simp_all add: checkRateLimit_def Let_def)

lemma checkRateLimit_below:
  assumes "rate_limit_records w (keyId, windowStart t) = Some c" and "c < limit"
  shows "fst (checkRateLimit t keyId limit w) = False"
    and "rate_limit_records (snd (checkRateLimit t keyId limit w)) (keyId, windowStart t)
           = Some (c + 1)"
  using assms by (simp_all add: checkRateLimit_def Let_def)

lemma checkRateLimit_reached:
  assumes "rate_limit_records w (keyId, windowStart t) = Some c" and "limit \<le> c"
  shows "fst (checkRateLimit t keyId limit w) = True"
    and "rate_limit_records (snd (checkRateLimit t keyId limit w)) (keyId, windowStart t)
           = Some c"
  using assms by (simp_all add: checkRateLimit_def Let_def)

lemma rate_calls_Cons:
  "fst (rate_calls (t # ts) keyId limit w) =
     fst (checkRateLimit t keyId limit w) #
     fst (rate_calls ts keyId limit (snd (checkRateLimit t keyId limit w)))"
  "snd (rate_calls (t # ts) keyId limit w) =
     snd (rate_calls ts keyId limit (snd (checkRateLimit t keyId limit w)))"
  by (simp_all add: split_beta Let_def)

lemma map_upt_shift: "map f [0..<Suc n] = f 0 # map (\<lambda>i. f (Suc i)) [0..<n]"
  by (simp only: upt_conv_Cons[of 0 "Suc n"] map_Suc_upt[symmetric]) (simp add: comp_def)

lemma rate_calls_from:
  assumes "\<forall>t \<in> set ts. windowStart t = ws"
    and "rate_limit_records w (keyId, ws) = Some c" and "c \<le> limit"
  shows "fst (rate_calls ts keyId limit w) = map (\<lambda>i. limit \<le> c + int i) [0..<length ts] \<and>
         rate_limit_records (snd (rate_calls ts keyId limit w)) (keyId, ws)
           = Some (min (c + int (length ts)) limit)"
  using assms
proof (induction ts arbitrary: w c)
  case Nil
  then show ?case by simp
next
  case (Cons t ts)
  have t: "windowStart t = ws" and ts: "\<forall>t \<in> set ts. windowStart t = ws"
    using Cons.prems(1) by simp_all
  have rec: "rate_limit_records w (keyId, windowStart t) = Some c"
    using Cons.prems(2) t by simp
  show ?case
  proof (cases "c < limit")
    case True
    let ?w1 = "snd (checkRateLimit t keyId limit w)"
    have b: "fst (checkRateLimit t keyId limit w) = False"
      and r1: "rate_limit_records ?w1 (keyId, ws) = Some (c + 1)"
      using checkRateLimit_below[OF rec True] t by simp_all
    have le: "c + 1 \<le> limit" using True by simp
    from Cons.IH[OF ts r1 le] b True show ?thesis
      by (simp only: rate_calls_Cons map_upt_shift length_Cons) (simp add: algebra_simps)
  next
    case False
    with Cons.prems(3) have eq: "c = limit" by simp
    let ?w1 = "snd (checkRateLimit t keyId limit w)"
    have ge: "limit \<le> c" using eq by simp
    have b: "fst (checkRateLimit t keyId limit w) = True"
      and r1: "rate_limit_records ?w1 (keyId, ws) = Some c"
      using checkRateLimit_reached[OF rec ge] t by simp_all
    from Cons.IH[OF ts r1 Cons.prems(3)] b eq show ?thesis
      by (simp only: rate_calls_Cons map_upt_shift length_Cons) simp
  qed
qed

lemma rate_calls_fresh:
  assumes "\<forall>t \<in> set ts. windowStart t = ws"
    and "rate_limit_records w (keyId, ws) = None" and "0 < limit" and "ts \<noteq> []"
  shows "fst (rate_calls ts keyId limit w) = map (\<lambda>i. limit \<le> int i) [0..<length ts] \<and>
         rate_limit_records (snd (rate_calls ts keyId limit w)) (keyId, ws)
           = Some (min (int (length ts)) limit)"
proof -
  from assms(4) obtain t ts' where ts: "ts = t # ts'" by (cases ts) auto
  have t: "windowStart t = ws" and ts': "\<forall>t \<in> set ts'. windowStart t = ws"
    using assms(1) ts by simp_all
  let ?w1 = "snd (checkRateLimit t keyId limit w)"
  have none: "rate_limit_records w (keyId, windowStart t) = None" using assms(2) t by simp
  have b: "fst (checkRateLimit t keyId limit w) = False"
    and r1: "rate_limit_records ?w1 (keyId, ws) = Some 1"
    using checkRateLimit_first[OF none] t by simp_all
  have le: "(1::int) \<le> limit" using assms(3) by simp
  from rate_calls_from[OF ts' r1 le] b assms(3) show ?thesis
    unfolding ts
    by (simp only: rate_calls_Cons map_upt_shift length_Cons) (simp add: algebra_simps)
qed

lemma windowStart_bounds: "windowStart now \<le> now \<and> now < windowStart now + 60000"
  unfolding windowStart_def by presburger

text \<open>
  Claim C2. Take a positive limit \<open>N\<close>, a key with no counter yet for the window
  \<open>ws\<close>, and any run of calls whose clock readings all fall in that window. Call number
  \<open>i\<close> (counting from 0) is reported as rate limited exactly when \<open>N \<le> i\<close>: the first
  \<open>N\<close> calls pass, every later one is rejected. After \<open>n\<close> calls the counter of
  \<open>(keyId, ws)\<close> is \<open>min n N\<close>: 1 after the first call, one more after each call that
  passed, and \<open>N\<close> for good once it is reached.
\<close>

theorem rate_limit_first_N_pass_then_rejected:
  assumes "0 < N" and "\<forall>t \<in> set ts. windowStart t = ws"
    and "rate_limit_records w (keyId, ws) = None"
  shows "fst (rate_calls ts keyId N w) = map (\<lambda>i. N \<le> int i) [0..<length ts] \<and>
         (\<forall>n. 0 < n \<and> n \<le> length ts \<longrightarrow>
              rate_limit_records (snd (rate_calls (take n ts) keyId N w)) (keyId, ws)
                = Some (min (int n) N))"
proof (cases "ts = []")
  case True
  then show ?thesis by simp
next
  case False
  have res: "fst (rate_calls ts keyId N w) = map (\<lambda>i. N \<le> int i) [0..<length ts]"
    using rate_calls_fresh[OF assms(2) assms(3) assms(1) False] by simp
  have cnt: "rate_limit_records (snd (rate_calls (take n ts) keyId N w)) (keyId, ws)
                = Some (min (int n) N)" if n: "0 < n \<and> n \<le> length ts" for n
  proof -
    have win: "\<forall>t \<in> set (take n ts). windowStart t = ws"
      using assms(2) by (auto dest: in_set_takeD)
    have ne: "take n ts \<noteq> []" using n False by auto
    have len: "length (take n ts) = n" using n by simp
    from rate_calls_fresh[OF win assms(3) assms(1) ne] show ?thesis
      unfolding len by simp
  qed
  from res cnt show ?thesis by blast
qed

text \<open>
  Limit 3 and four calls in the window that starts at 120000: three pass, the fourth is
  rejected, and the counter stands at 3.
\<close>

theorem rate_limit_first_N_pass_then_rejected_witness:
  "fst (rate_calls [120000, 120500, 150000, 179999] ''k1'' 3 store2)
     = [False, False, False, True] \<and>
   rate_limit_records (snd (rate_calls [120000, 120500, 150000, 179999] ''k1'' 3 store2))
     (''k1'', 120000) = Some 3 \<and>
   rate_limit_records (snd (rate_calls [120000] ''k1'' 3 store2)) (''k1'', 120000) = Some 1"
proof -
  have h1: "(0::int) < 3" by simp
  have h2: "\<forall>t \<in> set [120000, 120500, 150000, 179999::int]. windowStart t = 120000"
    by (simp add: windowStart_def)
  have h3: "rate_limit_records store2 (''k1'', 120000) = None"
    by (simp add: store2_def)
  note T = rate_limit_first_N_pass_then_rejected[OF h1 h2 h3]
  have a: "fst (rate_calls [120000, 120500, 150000, 179999] ''k1'' 3 store2)
     = [False, False, False, True]"
    using T[THEN conjunct1] by (simp add: upt_rec_numeral)
  have b: "rate_limit_records (snd (rate_calls [120000, 120500, 150000, 179999] ''k1'' 3 store2))
     (''k1'', 120000) = Some 3"
    using T[THEN conjunct2, rule_format, of 4] by simp
  have c: "rate_limit_records (snd (rate_calls [120000] ''k1'' 3 store2)) (''k1'', 120000) = Some 1"
    using T[THEN conjunct2, rule_format, of 1] by simp
  from a b c show ?thesis by blast
qed

section \<open>validate\<close>

lemma find_None_iff_no_row:
  "(find P xs = None) = (\<not> (\<exists>x \<in> set xs. P x))"
  by (induction xs) auto

lemma validate_not_found:
  assumes "find (\<lambda>r. key_hash r = hashKey k) (api_keys w) = None"
  shows "validate hashKey now k options w =
           (\<lparr>valid = False, reason = Some not_found, key = None\<rparr>, w)"
  using assms by (simp add: validate_def)

lemma validate_revoked:
  assumes "find (\<lambda>r. key_hash r = hashKey k) (api_keys w) = Some row"
    and "is_active row \<noteq> 1"
  shows "validate hashKey now k options w =
           (\<lparr>valid = False, reason = Some revoked, key = Some (rowToApiKey row)\<rparr>, w)"
  using assms by (simp add: validate_def)

lemma validate_expired:
  assumes "find (\<lambda>r. key_hash r = hashKey k) (api_keys w) = Some row"
    and "is_active row = 1"
    and "expiresAt (rowToApiKey row) = Some (Date e)" and "e < now"
  shows "validate hashKey now k options w =
           (\<lparr>valid = False, reason = Some expired, key = Some (rowToApiKey row)\<rparr>, w)"
proof -
  have "\<exists>e. expiresAt (rowToApiKey row) = Some (Date e) \<and> e < now"
    using assms(3,4) by blast
  then show ?thesis
    using assms(1,2) by (simp add: validate_def Let_def expiry_test del: expiresAt_rowToApiKey)
qed

lemma validate_rate_limited:
  assumes "find (\<lambda>r. key_hash r = hashKey k) (api_keys w) = Some row"
    and "is_active row = 1"
    and "\<forall>e. expiresAt (rowToApiKey row) = Some (Date e) \<longrightarrow> \<not> e < now"
    and "checkRateLimit_opt options \<noteq> Some False"
    and "truthy_num (rate_limit row) = Some n"
    and "rate_limit_records w (row_id row, windowStart now) = Some c" and "n \<le> c"
  shows "fst (validate hashKey now k options w) =
           \<lparr>valid = False, reason = Some rate_limited, key = Some (rowToApiKey row)\<rparr>"
proof -
  have chk: "(case checkRateLimit_opt options of None \<Rightarrow> True | Some b \<Rightarrow> b)"
    using assms(4) by (cases "checkRateLimit_opt options") auto
  have ex: "\<not> (\<exists>e. expiresAt (rowToApiKey row) = Some (Date e) \<and> e < now)"
    using assms(3) by blast
  have lim: "fst (checkRateLimit now (row_id row) n w) = True"
    using assms(6,7) by (simp add: checkRateLimit_def Let_def)
  show ?thesis
    using assms(1,2,5) chk ex lim
    by (simp add: validate_def split_beta Let_def expiry_test del: expiresAt_rowToApiKey)
qed

lemma validate_success:
  assumes "find (\<lambda>r. key_hash r = hashKey k) (api_keys w) = Some row"
    and "is_active row = 1"
    and "\<forall>e. expiresAt (rowToApiKey row) = Some (Date e) \<longrightarrow> \<not> e < now"
    and "checkRateLimit_opt options = Some False \<or> truthy_num (rate_limit row) = None \<or>
         (\<forall>c. rate_limit_records w (row_id row, windowStart now) = Some c \<longrightarrow>
              (\<forall>n. truthy_num (rate_limit row) = Some n \<longrightarrow> c < n))"
  shows "fst (validate hashKey now k options w) =
           \<lparr>valid = True, reason = None,
            key = Some (if updateLastUsed options = Some False then rowToApiKey row
                        else (rowToApiKey row)\<lparr>lastUsedAt := Some (Date now)\<rparr>)\<rparr>"
proof -
  have ex: "\<not> (\<exists>e. expiresAt (rowToApiKey row) = Some (Date e) \<and> e < now)"
    using assms(3) by blast
  have lim: "fst (case truthy_num (rate_limit row) of
                        None \<Rightarrow> (False, w)
                      | Some limit \<Rightarrow>
                          if (case checkRateLimit_opt options of None \<Rightarrow> True | Some b \<Rightarrow> b)
                          then checkRateLimit now (key_id (rowToApiKey row)) limit w
                          else (False, w)) = False"
    using assms(4)
    by (cases "truthy_num (rate_limit row)"; cases "checkRateLimit_opt options";
        cases "rate_limit_records w (row_id row, windowStart now)")
       (auto simp: checkRateLimit_def Let_def)
  show ?thesis
    using assms(1,2) ex lim
    by (cases "updateLastUsed options")
       (auto simp: validate_def split_beta Let_def expiry_test simp del: expiresAt_rowToApiKey)
qed

text \<open>
  What \<open>validate\<close> answers, check by check as the code makes them. No row with the hash
  of the presented key: not found, no key. For the row found: inactive gives revoked,
  whatever its expiry and its counter; active with an \<open>expiresAt\<close> that is a valid date
  before \<open>now\<close> gives expired; active, not so expired, and the rate check asked for with
  the counter of the current window at the (non-zero) limit or above gives rate limited;
  otherwise the key is valid. The first three answers leave the store as it was.
\<close>

lemma validate_answers:
  "(\<not> (\<exists>r \<in> set (api_keys w). key_hash r = hashKey k) \<longrightarrow>
      validate hashKey now k options w =
        (\<lparr>valid = False, reason = Some not_found, key = None\<rparr>, w)) \<and>
   (\<forall>row. find (\<lambda>r. key_hash r = hashKey k) (api_keys w) = Some row \<longrightarrow>
      (\<not> isActive (rowToApiKey row) \<longrightarrow>
         validate hashKey now k options w =
           (\<lparr>valid = False, reason = Some revoked, key = Some (rowToApiKey row)\<rparr>, w)) \<and>
      (isActive (rowToApiKey row) \<and>
       (\<exists>e. expiresAt (rowToApiKey row) = Some (Date e) \<and> e < now) \<longrightarrow>
         validate hashKey now k options w =
           (\<lparr>valid = False, reason = Some expired, key = Some (rowToApiKey row)\<rparr>, w)) \<and>
      (isActive (rowToApiKey row) \<and>
       \<not> (\<exists>e. expiresAt (rowToApiKey row) = Some (Date e) \<and> e < now) \<and>
       (checkRateLimit_opt options \<noteq> Some False \<and>
        (\<exists>n c. rateLimit (rowToApiKey row) = Some n \<and> n \<noteq> 0 \<and>
               rate_limit_records w (row_id row, windowStart now) = Some c \<and> n \<le> c)) \<longrightarrow>
         fst (validate hashKey now k options w) =
           \<lparr>valid = False, reason = Some rate_limited, key = Some (rowToApiKey row)\<rparr>) \<and>
      (isActive (rowToApiKey row) \<and>
       \<not> (\<exists>e. expiresAt (rowToApiKey row) = Some (Date e) \<and> e < now) \<and>
       \<not> (checkRateLimit_opt options \<noteq> Some False \<and>
        (\<exists>n c. rateLimit (rowToApiKey row) = Some n \<and> n \<noteq> 0 \<and>
               rate_limit_records w (row_id row, windowStart now) = Some c \<and> n \<le> c)) \<longrightarrow>
         fst (validate hashKey now k options w) =
           \<lparr>valid = True, reason = None,
            key = Some (if updateLastUsed options = Some False then rowToApiKey row
                        else (rowToApiKey row)\<lparr>lastUsedAt := Some (Date now)\<rparr>)\<rparr>))"
proof (intro conjI allI impI)
  assume "\<not> (\<exists>r \<in> set (api_keys w). key_hash r = hashKey k)"
  then have "find (\<lambda>r. key_hash r = hashKey k) (api_keys w) = None"
    by (simp add: find_None_iff_no_row)
  then show "validate hashKey now k options w =
        (\<lparr>valid = False, reason = Some not_found, key = None\<rparr>, w)"
    by (rule validate_not_found)
next
  fix row
  assume f: "find (\<lambda>r. key_hash r = hashKey k) (api_keys w) = Some row"
    and "\<not> isActive (rowToApiKey row)"
  then have "is_active row \<noteq> 1" by simp
  with f show "validate hashKey now k options w =
           (\<lparr>valid = False, reason = Some revoked, key = Some (rowToApiKey row)\<rparr>, w)"
    by (rule validate_revoked)
next
  fix row
  assume f: "find (\<lambda>r. key_hash r = hashKey k) (api_keys w) = Some row"
    and c: "isActive (rowToApiKey row) \<and>
       (\<exists>e. expiresAt (rowToApiKey row) = Some (Date e) \<and> e < now)"
  from c have a: "is_active row = 1" by simp
  from c obtain e where e: "expiresAt (rowToApiKey row) = Some (Date e)" "e < now" by blast
  show "validate hashKey now k options w =
           (\<lparr>valid = False, reason = Some expired, key = Some (rowToApiKey row)\<rparr>, w)"
    using f a e by (rule validate_expired)
next
  fix row
  assume f: "find (\<lambda>r. key_hash r = hashKey k) (api_keys w) = Some row"
    and c: "isActive (rowToApiKey row) \<and>
       \<not> (\<exists>e. expiresAt (rowToApiKey row) = Some (Date e) \<and> e < now) \<and>
       (checkRateLimit_opt options \<noteq> Some False \<and>
        (\<exists>n c. rateLimit (rowToApiKey row) = Some n \<and> n \<noteq> 0 \<and>
               rate_limit_records w (row_id row, windowStart now) = Some c \<and> n \<le> c))"
  from c have a: "is_active row = 1" by simp
  from c have x: "\<forall>e. expiresAt (rowToApiKey row) = Some (Date e) \<longrightarrow> \<not> e < now" by blast
  from c have o: "checkRateLimit_opt options \<noteq> Some False" by simp
  from c obtain n c' where n: "truthy_num (rate_limit row) = Some n"
    and r: "rate_limit_records w (row_id row, windowStart now) = Some c'" "n \<le> c'"
    by (auto simp: truthy_num_Some_iff)
  show "fst (validate hashKey now k options w) =
           \<lparr>valid = False, reason = Some rate_limited, key = Some (rowToApiKey row)\<rparr>"
    using f a x o n r by (rule validate_rate_limited)
next
  fix row
  assume f: "find (\<lambda>r. key_hash r = hashKey k) (api_keys w) = Some row"
    and c: "isActive (rowToApiKey row) \<and>
       \<not> (\<exists>e. expiresAt (rowToApiKey row) = Some (Date e) \<and> e < now) \<and>
       \<not> (checkRateLimit_opt options \<noteq> Some False \<and>
        (\<exists>n c. rateLimit (rowToApiKey row) = Some n \<and> n \<noteq> 0 \<and>
               rate_limit_records w (row_id row, windowStart now) = Some c \<and> n \<le> c))"
  from c have a: "is_active row = 1" by simp
  from c have x: "\<forall>e. expiresAt (rowToApiKey row) = Some (Date e) \<longrightarrow> \<not> e < now" by blast
  have l: "checkRateLimit_opt options = Some False \<or> truthy_num (rate_limit row) = None \<or>
         (\<forall>c. rate_limit_records w (row_id row, windowStart now) = Some c \<longrightarrow>
              (\<forall>n. truthy_num (rate_limit row) = Some n \<longrightarrow> c < n))"
  proof (cases "truthy_num (rate_limit row)")
    case None
    then show ?thesis by simp
  next
    case (Some n)
    then have "rate_limit row = Some n \<and> n \<noteq> 0" by (simp add: truthy_num_Some_iff)
    with c Some show ?thesis by auto
  qed
  show "fst (validate hashKey now k options w) =
           \<lparr>valid = True, reason = None,
            key = Some (if updateLastUsed options = Some False then rowToApiKey row
                        else (rowToApiKey row)\<lparr>lastUsedAt := Some (Date now)\<rparr>)\<rparr>"
    using f a x l by (rule validate_success)
qed

lemmas ex_defs = store4_def row_live_def row_gone_def row_old_def row_busy_def
  default_options_def toy_hash_def windowStart_def truthy_num_def

text \<open>
  On \<open>store4\<close> at time 120500, with the default options: an unknown key, the revoked key
  (also expired and out of budget), the expired key (also out of budget), the key out of
  budget, and the key with budget left.
\<close>

lemma validate_answers_store4:
  "map (\<lambda>k. reason (fst (validate toy_hash 120500 k default_options store4)))
     [''rapids_none'', ''rapids_gone'', ''rapids_old'', ''rapids_busy'', ''rapids_live'']
     = [Some not_found, Some revoked, Some expired, Some rate_limited, None] \<and>
   map (\<lambda>k. valid (fst (validate toy_hash 120500 k default_options store4)))
     [''rapids_none'', ''rapids_gone'', ''rapids_old'', ''rapids_busy'', ''rapids_live'']
     = [False, False, False, False, True] \<and>
   map (\<lambda>k. map_option key_id (key (fst (validate toy_hash 120500 k default_options store4))))
     [''rapids_none'', ''rapids_gone'', ''rapids_old'', ''rapids_busy'', ''rapids_live'']
     = [None, Some ''k2'', Some ''k3'', Some ''k4'', Some ''k1'']"
proof -
  note T = validate_answers
    [where hashKey = toy_hash and now = 120500 and options = default_options and w = store4]
  have a: "fst (validate toy_hash 120500 ''rapids_none'' default_options store4) =
      \<lparr>valid = False, reason = Some not_found, key = None\<rparr>"
    using T[where k = "''rapids_none''"] by (simp add: ex_defs new_Date_def)
  have b: "fst (validate toy_hash 120500 ''rapids_gone'' default_options store4) =
      \<lparr>valid = False, reason = Some revoked, key = Some (rowToApiKey row_gone)\<rparr>"
    using T[where k = "''rapids_gone''"] by (simp add: ex_defs new_Date_def)
  have c: "fst (validate toy_hash 120500 ''rapids_old'' default_options store4) =
      \<lparr>valid = False, reason = Some expired, key = Some (rowToApiKey row_old)\<rparr>"
    using T[where k = "''rapids_old''"] by (simp add: ex_defs new_Date_def)
  have d: "fst (validate toy_hash 120500 ''rapids_busy'' default_options store4) =
      \<lparr>valid = False, reason = Some rate_limited, key = Some (rowToApiKey row_busy)\<rparr>"
    using T[where k = "''rapids_busy''"] by (simp add: ex_defs new_Date_def)
  have e: "fst (validate toy_hash 120500 ''rapids_live'' default_options store4) =
      \<lparr>valid = True, reason = None, key = Some ((rowToApiKey row_live)\<lparr>lastUsedAt := Some (Date 120500)\<rparr>)\<rparr>"
    using T[where k = "''rapids_live''"] by (simp add: ex_defs new_Date_def)
  show ?thesis
    unfolding list.map a b c d e by (simp add: ex_defs new_Date_def)
qed

text \<open>
  Claim C1. The order not found, revoked, expired, rate limited holds of \<open>validate\<close>
  for keys that expired before \<open>now\<close> (\<open>validate_answers\<close> above), but \<open>validate\<close> tests
  \<open>apiKey.expiresAt < new Date()\<close>: at the instant \<open>now = expiresAt\<close> the expiry check
  passes and the later checks decide. On \<open>store_edge\<close> key \<open>k3\<close> is active, expires at
  5000 and has used up its limit of 2 in the window of 5000: at 5000 \<open>validate\<close> answers
  rate limited, not expired, while \<open>getStats\<close> at 5000 counts the key as expired; from
  5001 on \<open>validate\<close> answers expired.
\<close>

theorem validate_rate_limited_at_expiry_instant:
  "find (\<lambda>r. key_hash r = toy_hash ''rapids_old'') (api_keys store_edge) = Some row_old \<and>
   is_active row_old = 1 \<and> expires_at row_old = Some 5000 \<and>
   rate_limit row_old = Some 2 \<and>
   rate_limit_records store_edge (''k3'', windowStart 5000) = Some 2 \<and>
   fst (validate toy_hash 5000 ''rapids_old'' default_options store_edge) =
     \<lparr>valid = False, reason = Some rate_limited, key = Some (rowToApiKey row_old)\<rparr> \<and>
   fst (validate toy_hash 5001 ''rapids_old'' default_options store_edge) =
     \<lparr>valid = False, reason = Some expired, key = Some (rowToApiKey row_old)\<rparr> \<and>
   expired_count (getStats 5000 store_edge) = 1 \<and> active (getStats 5000 store_edge) = 0"
proof -
  have f: "find (\<lambda>r. key_hash r = toy_hash ''rapids_old'') (api_keys store_edge) = Some row_old"
    by (simp add: store_edge_def ex_defs)
  have a: "is_active row_old = 1" and x: "expires_at row_old = Some 5000"
    and l: "rate_limit row_old = Some 2"
    by (simp_all add: row_old_def)
  have e1: "expiresAt (rowToApiKey row_old) = Some (Date 5000)"
    by (simp add: row_old_def truthy_num_def new_Date_def)
  have nx: "\<forall>e. expiresAt (rowToApiKey row_old) = Some (Date e) \<longrightarrow> \<not> e < 5000"
    unfolding e1 by simp
  have o: "checkRateLimit_opt default_options \<noteq> Some False"
    by (simp add: default_options_def)
  have n: "truthy_num (rate_limit row_old) = Some 2"
    by (simp add: row_old_def truthy_num_def)
  have c: "rate_limit_records store_edge (row_id row_old, windowStart 5000) = Some 2"
    by (simp add: store_edge_def row_old_def windowStart_def)
  have c': "rate_limit_records store_edge (''k3'', windowStart 5000) = Some 2"
    by (simp add: store_edge_def windowStart_def)
  have le: "(2::int) \<le> 2" by simp
  have v: "fst (validate toy_hash 5000 ''rapids_old'' default_options store_edge) =
     \<lparr>valid = False, reason = Some rate_limited, key = Some (rowToApiKey row_old)\<rparr>"
    using f a nx o n c le by (rule validate_rate_limited)
  have e2: "(5000::int) < 5001" by simp
  have "validate toy_hash 5001 ''rapids_old'' default_options store_edge =
     (\<lparr>valid = False, reason = Some expired, key = Some (rowToApiKey row_old)\<rparr>, store_edge)"
    using f a e1 e2 by (rule validate_expired)
  then have v': "fst (validate toy_hash 5001 ''rapids_old'' default_options store_edge) =
     \<lparr>valid = False, reason = Some expired, key = Some (rowToApiKey row_old)\<rparr>"
    by simp
  have s: "expired_count (getStats 5000 store_edge) = 1 \<and> active (getStats 5000 store_edge) = 0"
    by (simp add: getStats_def store_edge_def row_old_def)
  from f a x l c' v v' s show ?thesis by blast
qed

text \<open>
  Claim C5. \<open>validate\<close> tests \<open>apiKey.expiresAt < new Date()\<close>, so at the instant
  \<open>now = expiresAt\<close> the key still validates, while \<open>getStats\<close> at that same instant
  (\<open>expires_at <= now\<close>) counts it as expired and not as active. On \<open>store4\<close>, key
  \<open>k3\<close> expires at 5000:
\<close>

theorem validate_at_expiry_instant_still_valid:
  "expires_at row_old = Some 5000 \<and> is_active row_old = 1 \<and>
   find (\<lambda>r. key_hash r = toy_hash ''rapids_old'') (api_keys store4) = Some row_old \<and>
   fst (validate toy_hash 5000 ''rapids_old'' default_options store4) =
     \<lparr>valid = True, reason = None,
      key = Some ((rowToApiKey row_old)\<lparr>lastUsedAt := Some (Date 5000)\<rparr>)\<rparr> \<and>
   reason (fst (validate toy_hash 5001 ''rapids_old'' default_options store4)) = Some expired \<and>
   expired_count (getStats 5000 store4) = 2 \<and> active (getStats 5000 store4) = 2"
proof -
  have f: "find (\<lambda>r. key_hash r = toy_hash ''rapids_old'') (api_keys store4) = Some row_old"
    by (simp add: ex_defs)
  have a: "is_active row_old = 1" and x: "expires_at row_old = Some 5000"
    by (simp_all add: row_old_def)
  have e1: "expiresAt (rowToApiKey row_old) = Some (Date 5000)"
    by (simp add: row_old_def truthy_num_def new_Date_def)
  have nx: "\<forall>e. expiresAt (rowToApiKey row_old) = Some (Date e) \<longrightarrow> \<not> e < 5000"
    unfolding e1 by simp
  have l: "checkRateLimit_opt default_options = Some False \<or>
         truthy_num (rate_limit row_old) = None \<or>
         (\<forall>c. rate_limit_records store4 (row_id row_old, windowStart 5000) = Some c \<longrightarrow>
              (\<forall>n. truthy_num (rate_limit row_old) = Some n \<longrightarrow> c < n))"
    by (simp add: ex_defs)
  have v: "fst (validate toy_hash 5000 ''rapids_old'' default_options store4) =
     \<lparr>valid = True, reason = None,
      key = Some ((rowToApiKey row_old)\<lparr>lastUsedAt := Some (Date 5000)\<rparr>)\<rparr>"
    using validate_success[where hashKey = toy_hash and k = "''rapids_old''", OF f a nx l]
    by (simp add: default_options_def)
  have e2: "(5000::int) < 5001" by simp
  have v': "reason (fst (validate toy_hash 5001 ''rapids_old'' default_options store4))
              = Some expired"
    using validate_expired[where hashKey = toy_hash and k = "''rapids_old''", OF f a e1 e2]
    by simp
  have s: "expired_count (getStats 5000 store4) = 2 \<and> active (getStats 5000 store4) = 2"
    by (simp add: getStats_def ex_defs)
  from f a x v v' s show ?thesis by blast
qed

section \<open>getStats\<close>

lemma count_where_filter: "count_where P rs = length (filter P rs)"
  by (induction rs) simp_all

lemma case_expires_gt:
  "(case v of None \<Rightarrow> True | Some e \<Rightarrow> (now::int) < e) = (v = None \<or> (\<exists>e. v = Some e \<and> now < e))"
  by (cases v) simp_all

lemma case_expires_le:
  "(case v of None \<Rightarrow> False | Some e \<Rightarrow> e \<le> (now::int)) = (\<exists>e. v = Some e \<and> e \<le> now)"
  by (cases v) simp_all

lemma stats_sum:
  assumes "\<forall>r \<in> set rs. is_active r = 0 \<or> is_active r = 1"
  shows "length (filter (\<lambda>r. is_active r = 1 \<and>
                     (expires_at r = None \<or> (\<exists>e. expires_at r = Some e \<and> now < e))) rs) +
         length (filter (\<lambda>r. \<exists>e. expires_at r = Some e \<and> e \<le> now) rs) +
         length (filter (\<lambda>r. is_active r = 0) rs) =
         length rs +
         length (filter (\<lambda>r. is_active r = 0 \<and> (\<exists>e. expires_at r = Some e \<and> e \<le> now)) rs)"
  using assms
proof (induction rs)
  case Nil
  then show ?case by simp
next
  case (Cons r rs)
  then have IH: "length (filter (\<lambda>r. is_active r = 1 \<and>
                     (expires_at r = None \<or> (\<exists>e. expires_at r = Some e \<and> now < e))) rs) +
         length (filter (\<lambda>r. \<exists>e. expires_at r = Some e \<and> e \<le> now) rs) +
         length (filter (\<lambda>r. is_active r = 0) rs) =
         length rs +
         length (filter (\<lambda>r. is_active r = 0 \<and> (\<exists>e. expires_at r = Some e \<and> e \<le> now)) rs)"
    by simp
  from Cons.prems have fl: "is_active r = 0 \<or> is_active r = 1" by simp
  show ?case
  proof (cases "expires_at r")
    case None
    with fl IH show ?thesis by auto
  next
    case (Some e)
    with fl IH show ?thesis by (cases "e \<le> now") auto
  qed
qed

text \<open>
  Claim C8. On a table whose \<open>is_active\<close> column holds 0 or 1 (all that \<open>create\<close> and
  \<open>revoke\<close> ever write), \<open>getStats\<close> returns four counts taken one by one: all rows;
  rows with \<open>isActive\<close> true and \<open>expires_at\<close> unset or after \<open>now\<close>; rows with
  \<open>expires_at\<close> set and at or before \<open>now\<close>, active or not; rows with \<open>isActive\<close>
  false, expired or not. A row both revoked and expired is in the last two counts, so
  active + expired + revoked exceeds total by the number of such rows.
\<close>

theorem getStats_independent_counts:
  assumes "\<forall>r \<in> set (api_keys w). is_active r = 0 \<or> is_active r = 1"
  shows "total (getStats now w) = length (api_keys w) \<and>
         active (getStats now w) =
           length (filter (\<lambda>r. isActive (rowToApiKey r) \<and>
                     (expires_at r = None \<or> (\<exists>e. expires_at r = Some e \<and> now < e)))
                   (api_keys w)) \<and>
         expired_count (getStats now w) =
           length (filter (\<lambda>r. \<exists>e. expires_at r = Some e \<and> e \<le> now) (api_keys w)) \<and>
         revoked_count (getStats now w) =
           length (filter (\<lambda>r. \<not> isActive (rowToApiKey r)) (api_keys w)) \<and>
         active (getStats now w) + expired_count (getStats now w) + revoked_count (getStats now w) =
           total (getStats now w) +
           length (filter (\<lambda>r. \<not> isActive (rowToApiKey r) \<and>
                     (\<exists>e. expires_at r = Some e \<and> e \<le> now)) (api_keys w))"
proof -
  have inact: "filter (\<lambda>r. \<not> isActive (rowToApiKey r)) (api_keys w) =
               filter (\<lambda>r. is_active r = 0) (api_keys w)"
    using assms by (intro filter_cong) auto
  have both: "filter (\<lambda>r. \<not> isActive (rowToApiKey r) \<and>
                     (\<exists>e. expires_at r = Some e \<and> e \<le> now)) (api_keys w) =
              filter (\<lambda>r. is_active r = 0 \<and> (\<exists>e. expires_at r = Some e \<and> e \<le> now)) (api_keys w)"
    using assms by (intro filter_cong) auto
  have t: "total (getStats now w) = length (api_keys w)"
    by (simp add: getStats_def count_where_filter)
  have a: "active (getStats now w) =
           length (filter (\<lambda>r. is_active r = 1 \<and>
                     (expires_at r = None \<or> (\<exists>e. expires_at r = Some e \<and> now < e)))
                   (api_keys w))"
    by (simp add: getStats_def count_where_filter case_expires_gt)
  have e: "expired_count (getStats now w) =
           length (filter (\<lambda>r. \<exists>e. expires_at r = Some e \<and> e \<le> now) (api_keys w))"
    by (simp add: getStats_def count_where_filter case_expires_le)
  have r: "revoked_count (getStats now w) = length (filter (\<lambda>r. is_active r = 0) (api_keys w))"
    by (simp add: getStats_def count_where_filter)
  have s: "active (getStats now w) + expired_count (getStats now w) + revoked_count (getStats now w) =
           total (getStats now w) +
           length (filter (\<lambda>r. is_active r = 0 \<and>
                     (\<exists>e. expires_at r = Some e \<and> e \<le> now)) (api_keys w))"
    unfolding t a e r by (rule stats_sum[OF assms])
  from t a e r s show ?thesis
    unfolding inact both by simp
qed

text \<open>
  \<open>store_stats\<close> is the data set of two active, one revoked and one expired key;
  \<open>store4\<close> holds a key both revoked and expired, counted twice.
\<close>

theorem getStats_independent_counts_witness:
  "getStats 120500 store_stats = \<lparr>total = 4, active = 2, expired_count = 1, revoked_count = 1\<rparr> \<and>
   getStats 120500 store4 = \<lparr>total = 4, active = 2, expired_count = 2, revoked_count = 1\<rparr>"
proof -
  have h1: "\<forall>r \<in> set (api_keys store_stats). is_active r = 0 \<or> is_active r = 1"
    by (simp add: store_stats_def row_off_def ex_defs)
  have h2: "\<forall>r \<in> set (api_keys store4). is_active r = 0 \<or> is_active r = 1"
    by (simp add: ex_defs)
  have e: "s = \<lparr>total = total s, active = active s, expired_count = expired_count s,
                revoked_count = revoked_count s\<rparr>" for s :: stats
    by simp
  have a: "getStats 120500 store_stats =
             \<lparr>total = 4, active = 2, expired_count = 1, revoked_count = 1\<rparr>"
    using getStats_independent_counts[OF h1, of 120500]
    by (subst e) (simp add: store_stats_def row_off_def ex_defs)
  have b: "getStats 120500 store4 =
             \<lparr>total = 4, active = 2, expired_count = 2, revoked_count = 1\<rparr>"
    using getStats_independent_counts[OF h2, of 120500]
    by (subst e) (simp add: ex_defs)
  from a b show ?thesis by blast
qed

section \<open>create\<close>

lemma create_unfold:
  "create hashKey now config w =
     (if ToIndex (merged_length config) < 0 \<or>
         max_array_length w < ToIndex (merged_length config) then (Inl RangeError, w)
      else
        let w1 = w\<lparr>random_values :=
                     (\<lambda>i. random_values w (i + nat (ToIndex (merged_length config))))\<rparr>
        in case random_chars (map (random_values w) [0..<nat (ToIndex (merged_length config))])
                  (CHARSETS (merged_charset config)) of
             Inl e \<Rightarrow> (Inl e, w1)
           | Inr body \<Rightarrow>
               let w2 = w1\<lparr>random_uuids := (\<lambda>i. random_uuids w (Suc i))\<rparr>;
                   row = new_row hashKey now config w body
               in if (\<exists>r \<in> set (api_keys w). row_id r = row_id row \<or> key_hash r = key_hash row)
                  then (Inl ConstraintError, w2)
                  else (Inr \<lparr>cr_key = merged_prefix config @ body, cr_record = rowToApiKey row\<rparr>,
                        w2\<lparr>api_keys := api_keys w @ [row]\<rparr>))"
  by (simp add: create_def generateRandomString_def generateId_def insert_api_key_def Let_def
        new_row_def rowToApiKey_def truthy_num_def
      split: sum.splits option.splits)

lemma create_InrD:
  assumes "create hashKey now config w = (Inr res, w')"
  shows "\<exists>body. 0 \<le> ToIndex (merged_length config) \<and>
           ToIndex (merged_length config) \<le> max_array_length w \<and>
           random_chars (map (random_values w) [0..<nat (ToIndex (merged_length config))])
             (CHARSETS (merged_charset config)) = Inr body \<and>
           cr_key res = merged_prefix config @ body \<and>
           cr_record res = rowToApiKey (new_row hashKey now config w body) \<and>
           (\<forall>r \<in> set (api_keys w). row_id r \<noteq> random_uuids w 0 \<and>
                key_hash r \<noteq> hashKey (merged_prefix config @ body)) \<and>
           api_keys w' = api_keys w @ [new_row hashKey now config w body] \<and>
           rate_limit_records w' = rate_limit_records w"
proof -
  have len: "\<not> (ToIndex (merged_length config) < 0 \<or>
                 max_array_length w < ToIndex (merged_length config))"
    using assms by (auto simp: create_unfold split: if_splits)
  obtain body where body:
    "random_chars (map (random_values w) [0..<nat (ToIndex (merged_length config))])
             (CHARSETS (merged_charset config)) = Inr body"
    using assms len
    by (cases "random_chars (map (random_values w) [0..<nat (ToIndex (merged_length config))])
             (CHARSETS (merged_charset config))")
       (auto simp: create_unfold Let_def)
  let ?row = "new_row hashKey now config w body"
  have nocol: "\<not> (\<exists>r \<in> set (api_keys w). row_id r = row_id ?row \<or> key_hash r = key_hash ?row)"
    using assms len body by (auto simp: create_unfold Let_def split: if_splits)
  have res: "res = \<lparr>cr_key = merged_prefix config @ body, cr_record = rowToApiKey ?row\<rparr>"
    and w': "w' = w\<lparr>random_values :=
                     (\<lambda>i. random_values w (i + nat (ToIndex (merged_length config)))),
                   random_uuids := (\<lambda>i. random_uuids w (Suc i)),
                   api_keys := api_keys w @ [?row]\<rparr>"
    using assms len body nocol by (simp_all add: create_unfold Let_def)
  have ids: "row_id ?row = random_uuids w 0" "key_hash ?row = hashKey (merged_prefix config @ body)"
    by (simp_all add: new_row_def)
  from len body res w' nocol ids show ?thesis
    by (intro exI[of _ body]) auto
qed

lemma find_snoc_new:
  assumes "\<forall>x \<in> set xs. \<not> P x" and "P y"
  shows "find P (xs @ [y]) = Some y"
  using assms by (induction xs) auto

lemma new_row_fields:
  "row_id (new_row hashKey now config w body) = random_uuids w 0"
  "key_hash (new_row hashKey now config w body) = hashKey (merged_prefix config @ body)"
  "is_active (new_row hashKey now config w body) = 1"
  "rate_limit (new_row hashKey now config w body) = cfg_rateLimit config"
  "expires_at (new_row hashKey now config w body) =
     (case truthy_num (cfg_expiresIn config) of None \<Rightarrow> None | Some e \<Rightarrow> Some (to_double (now + to_double (e * 1000))))"
  "row_suffix (new_row hashKey now config w body) = slice_last4 (merged_prefix config @ body)"
  "row_prefix (new_row hashKey now config w body) = merged_prefix config"
  by (simp_all add: new_row_def)

lemma create_finds_new_row:
  assumes "create hashKey now config w = (Inr res, w')"
  shows "\<exists>row. api_keys w' = api_keys w @ [row] \<and>
           find (\<lambda>r. key_hash r = hashKey (cr_key res)) (api_keys w') = Some row \<and>
           find (\<lambda>r. row_id r = key_id (cr_record res)) (api_keys w') = Some row \<and>
           rowToApiKey row = cr_record res \<and> is_active row = 1 \<and>
           rate_limit_records w' = rate_limit_records w \<and>
           expires_at row =
             (case truthy_num (cfg_expiresIn config) of
                None \<Rightarrow> None | Some e \<Rightarrow> Some (to_double (now + to_double (e * 1000))))"
proof -
  from create_InrD[OF assms] obtain body where
    k: "cr_key res = merged_prefix config @ body"
    and r: "cr_record res = rowToApiKey (new_row hashKey now config w body)"
    and fresh: "\<forall>r \<in> set (api_keys w). row_id r \<noteq> random_uuids w 0 \<and>
                key_hash r \<noteq> hashKey (merged_prefix config @ body)"
    and rows: "api_keys w' = api_keys w @ [new_row hashKey now config w body]"
    and rl: "rate_limit_records w' = rate_limit_records w"
    by blast
  let ?row = "new_row hashKey now config w body"
  have f1: "find (\<lambda>r. key_hash r = hashKey (cr_key res)) (api_keys w') = Some ?row"
    unfolding rows k using fresh by (intro find_snoc_new) (simp_all add: new_row_fields)
  have f2: "find (\<lambda>r. row_id r = key_id (cr_record res)) (api_keys w') = Some ?row"
    unfolding rows r using fresh by (intro find_snoc_new) (simp_all add: new_row_fields)
  from rows f1 f2 r rl show ?thesis
    by (intro exI[of _ ?row]) (simp add: new_row_fields)
qed

lemma validate_never_expired_before:
  assumes "find (\<lambda>r. key_hash r = hashKey k) (api_keys w) = Some row"
    and "\<forall>e. expiresAt (rowToApiKey row) = Some (Date e) \<longrightarrow> \<not> e < now"
  shows "reason (fst (validate hashKey now k options w)) \<noteq> Some expired"
proof (cases "is_active row = 1")
  case False
  with assms(1) have "validate hashKey now k options w =
      (\<lparr>valid = False, reason = Some revoked, key = Some (rowToApiKey row)\<rparr>, w)"
    by (rule validate_revoked)
  then show ?thesis by simp
next
  case True
  show ?thesis
  proof (cases "checkRateLimit_opt options \<noteq> Some False \<and>
               (\<exists>n c. truthy_num (rate_limit row) = Some n \<and>
                  rate_limit_records w (row_id row, windowStart now) = Some c \<and> n \<le> c)")
    case lim: True
    then obtain n c where o: "checkRateLimit_opt options \<noteq> Some False"
      and n: "truthy_num (rate_limit row) = Some n"
      and c: "rate_limit_records w (row_id row, windowStart now) = Some c" "n \<le> c"
      by blast
    have "fst (validate hashKey now k options w) =
           \<lparr>valid = False, reason = Some rate_limited, key = Some (rowToApiKey row)\<rparr>"
      using assms(1) True assms(2) o n c by (rule validate_rate_limited)
    then show ?thesis by simp
  next
    case nolim: False
    have l: "checkRateLimit_opt options = Some False \<or> truthy_num (rate_limit row) = None \<or>
         (\<forall>c. rate_limit_records w (row_id row, windowStart now) = Some c \<longrightarrow>
              (\<forall>n. truthy_num (rate_limit row) = Some n \<longrightarrow> c < n))"
      using nolim by (cases "truthy_num (rate_limit row)") auto
    have "fst (validate hashKey now k options w) =
           \<lparr>valid = True, reason = None,
            key = Some (if updateLastUsed options = Some False then rowToApiKey row
                        else (rowToApiKey row)\<lparr>lastUsedAt := Some (Date now)\<rparr>)\<rparr>"
      using assms(1) True assms(2) l by (rule validate_success)
    then show ?thesis by simp
  qed
qed

text \<open>
  Claim C3. When \<open>create\<close> returns, validating the raw key it returned on the store it
  left, at any later reading \<open>now'\<close> of the clock and with any options, gives a valid
  result whose key has the id of the record \<open>create\<close> returned; \<open>getById\<close> on that id
  gives that record, whose hash is the hash of the raw key. This holds provided the
  record's expiry, if a valid date, is not before \<open>now'\<close> (an Invalid Date never
  expires in \<open>validate\<close>), and the counter of its id in the
  window of \<open>now'\<close>, if any, is below its limit. Nothing can have revoked the key in
  between.
\<close>

theorem create_then_validate_roundtrip:
  assumes "create hashKey now config w = (Inr res, w')"
    and "\<forall>e. expiresAt (cr_record res) = Some (Date e) \<longrightarrow> \<not> e < now'"
    and "\<forall>n c. rateLimit (cr_record res) = Some n \<and> n \<noteq> 0 \<and>
               rate_limit_records w' (key_id (cr_record res), windowStart now') = Some c
               \<longrightarrow> c < n"
  shows "valid (fst (validate hashKey now' (cr_key res) options w')) \<and>
         reason (fst (validate hashKey now' (cr_key res) options w')) = None \<and>
         map_option key_id (key (fst (validate hashKey now' (cr_key res) options w')))
           = Some (key_id (cr_record res)) \<and>
         getById (key_id (cr_record res)) w' = Some (cr_record res) \<and>
         keyHash (cr_record res) = hashKey (cr_key res)"
proof -
  from create_finds_new_row[OF assms(1)] obtain row where
    f1: "find (\<lambda>r. key_hash r = hashKey (cr_key res)) (api_keys w') = Some row"
    and f2: "find (\<lambda>r. row_id r = key_id (cr_record res)) (api_keys w') = Some row"
    and r: "rowToApiKey row = cr_record res" and a: "is_active row = 1"
    by blast
  have id: "row_id row = key_id (cr_record res)"
    and rl: "rate_limit row = rateLimit (cr_record res)" and kh: "key_hash row = keyHash (cr_record res)"
    by (simp_all add: r[symmetric] rowToApiKey_def)
  have x: "\<forall>e. expiresAt (rowToApiKey row) = Some (Date e) \<longrightarrow> \<not> e < now'"
    using assms(2) unfolding r .
  have l: "checkRateLimit_opt options = Some False \<or> truthy_num (rate_limit row) = None \<or>
         (\<forall>c. rate_limit_records w' (row_id row, windowStart now') = Some c \<longrightarrow>
              (\<forall>n. truthy_num (rate_limit row) = Some n \<longrightarrow> c < n))"
    using assms(3) id rl by (auto simp: truthy_num_Some_iff)
  have v: "fst (validate hashKey now' (cr_key res) options w') =
           \<lparr>valid = True, reason = None,
            key = Some (if updateLastUsed options = Some False then rowToApiKey row
                        else (rowToApiKey row)\<lparr>lastUsedAt := Some (Date now')\<rparr>)\<rparr>"
    using f1 a x l by (rule validate_success)
  have g: "getById (key_id (cr_record res)) w' = Some (cr_record res)"
    using f2 r by (simp add: getById_def)
  have h: "keyHash (cr_record res) = hashKey (cr_key res)"
    using find_SomeD[OF f1] kh by simp
  from v g h id show ?thesis by simp
qed

lemma to_double_exact:
  assumes "\<bar>x\<bar> < 2 ^ 53"
  shows "to_double x = x"
proof -
  have "bitlen \<bar>x\<bar> \<le> 53"
    using assms by (simp add: bitlen_le_iff_power)
  then show ?thesis by (simp add: to_double_def Let_def)
qed

text \<open>Beyond 2^53 the sum is rounded: 9008899254740001 is stored as 9008899254740000.\<close>

lemma to_double_rounds:
  "to_double (1700000000001 + to_double (9007199254740 * 1000)) = 9008899254740000"
  by code_simp

text \<open>
  Claim C10. The row that a successful \<open>create\<close> appends has \<open>expires_at\<close> null when
  \<open>expiresIn\<close> is 0 (so has the returned record, and no later \<open>validate\<close> of the key
  answers expired) and when \<open>expiresIn\<close> is absent. For a non-zero integer \<open>expiresIn\<close>
  it holds a number: \<open>now + expiresIn * 1000\<close> itself as long as that sum and the
  product are below 2^53 in size, where doubles are exact.
\<close>

theorem create_expiresIn_zero_is_null:
  assumes "create hashKey now config w = (Inr res, w')"
  shows "\<exists>row. api_keys w' = api_keys w @ [row] \<and> rowToApiKey row = cr_record res \<and>
           (cfg_expiresIn config = Some 0 \<longrightarrow>
              expires_at row = None \<and> expiresAt (cr_record res) = None \<and>
              (\<forall>t options. reason (fst (validate hashKey t (cr_key res) options w'))
                              \<noteq> Some expired)) \<and>
           (\<forall>e. cfg_expiresIn config = Some e \<and> e \<noteq> 0 \<longrightarrow> expires_at row \<noteq> None) \<and>
           (\<forall>e. cfg_expiresIn config = Some e \<and> e \<noteq> 0 \<and>
                \<bar>e * 1000\<bar> < 2 ^ 53 \<and> \<bar>now + e * 1000\<bar> < 2 ^ 53 \<longrightarrow>
              expires_at row = Some (now + e * 1000)) \<and>
           (cfg_expiresIn config = None \<longrightarrow> expires_at row = None)"
proof -
  from create_finds_new_row[OF assms] obtain row where
    rows: "api_keys w' = api_keys w @ [row]"
    and f1: "find (\<lambda>r. key_hash r = hashKey (cr_key res)) (api_keys w') = Some row"
    and r: "rowToApiKey row = cr_record res"
    and e: "expires_at row =
             (case truthy_num (cfg_expiresIn config) of
                None \<Rightarrow> None | Some e \<Rightarrow> Some (to_double (now + to_double (e * 1000))))"
    by blast
  have ex: "map_option new_Date (truthy_num (expires_at row)) = expiresAt (cr_record res)"
    by (simp add: r[symmetric] rowToApiKey_def)
  have z: "expires_at row = None \<and> expiresAt (cr_record res) = None \<and>
           (\<forall>t options. reason (fst (validate hashKey t (cr_key res) options w')) \<noteq> Some expired)"
    if "cfg_expiresIn config = Some 0"
  proof -
    from that e have n: "expires_at row = None" by (simp add: truthy_num_def)
    then have "\<forall>e. expiresAt (rowToApiKey row) = Some (Date e) \<longrightarrow> \<not> e < t" for t
      by (simp add: truthy_num_def)
    then have "reason (fst (validate hashKey t (cr_key res) options w')) \<noteq> Some expired"
      for t options
      using f1 by (intro validate_never_expired_before)
    with n ex show ?thesis by (simp add: truthy_num_def)
  qed
  have nz: "expires_at row = Some (to_double (now + to_double (e' * 1000)))"
    if "cfg_expiresIn config = Some e' \<and> e' \<noteq> 0" for e'
    using that e by (simp add: truthy_num_def)
  have sf: "expires_at row = Some (now + e' * 1000)"
    if "cfg_expiresIn config = Some e' \<and> e' \<noteq> 0 \<and>
        \<bar>e' * 1000\<bar> < 2 ^ 53 \<and> \<bar>now + e' * 1000\<bar> < 2 ^ 53" for e'
  proof -
    have "to_double (e' * 1000) = e' * 1000" using that by (intro to_double_exact) simp
    moreover have "to_double (now + e' * 1000) = now + e' * 1000"
      using that by (intro to_double_exact) simp
    ultimately show ?thesis using nz[of e'] that by simp
  qed
  have nn: "expires_at row = None" if "cfg_expiresIn config = None"
    using that e by (simp add: truthy_num_def)
  have nz': "expires_at row \<noteq> None" if "cfg_expiresIn config = Some e' \<and> e' \<noteq> 0" for e'
    using nz[OF that] by simp
  from rows r z nz' sf nn show ?thesis
    by (intro exI[of _ row]) blast
qed

lemmas cfg_defs = cfg_zero_def cfg_minute_def merged_prefix_def merged_length_def
  merged_charset_def merged_metadata_def merged_scopes_def CHARSETS_def
  Object_prototype_names_def ToIndex_def

lemma pair_of_fst_Inr: "fst x = Inr a \<Longrightarrow> x = (Inr a, snd x)"
  by (cases x) simp

lemma pair_of_fst_projr: "fst x = Inr a \<Longrightarrow> x = (Inr (projr (fst x)), snd x)"
  by (cases x) simp

lemma create_cfg_zero:
  "fst (create toy_hash 1000 cfg_zero store2) =
     Inr \<lparr>cr_key = ''rapids_01234567'',
          cr_record = \<lparr>key_id = ''uuid-'', keyHash = ''h:rapids_01234567'',
            key_prefix = ''rapids_'', key_suffix = ''4567'', key_name = None,
            createdAt = Date 1000, expiresAt = None, lastUsedAt = None, isActive = True,
            key_metadata = ''{}'', key_scopes = [], rateLimit = Some 3\<rparr>\<rparr>"
  by (simp add: create_unfold new_row_def cfg_defs store2_def row_live_def row_gone_def
        toy_hash_def slice_last4_def rowToApiKey_def truthy_num_def upt_conv_Cons Let_def
        new_Date_def to_double_exact)

lemma create_cfg_minute:
  "fst (create toy_hash 1000 cfg_minute store2) =
     Inr \<lparr>cr_key = ''rapids_01234567'',
          cr_record = \<lparr>key_id = ''uuid-'', keyHash = ''h:rapids_01234567'',
            key_prefix = ''rapids_'', key_suffix = ''4567'', key_name = None,
            createdAt = Date 1000, expiresAt = Some (Date 61000), lastUsedAt = None, isActive = True,
            key_metadata = ''{}'', key_scopes = [], rateLimit = Some 3\<rparr>\<rparr>"
  by (simp add: create_unfold new_row_def cfg_defs store2_def row_live_def row_gone_def
        toy_hash_def slice_last4_def rowToApiKey_def truthy_num_def upt_conv_Cons Let_def
        new_Date_def to_double_exact)

lemma create_rate_limit_records:
  "rate_limit_records (snd (create hashKey now config w)) = rate_limit_records w"
  by (simp add: create_unfold Let_def split: sum.splits)

text \<open>
  \<open>cfg_zero\<close> on \<open>store2\<close> at time 1000, validated at 2000; \<open>cfg_minute\<close> validated
  at its expiry instant 61000.
\<close>

theorem create_then_validate_roundtrip_witness:
  "cr_key (projr (fst (create toy_hash 1000 cfg_zero store2))) = ''rapids_01234567'' \<and>
   key_id (cr_record (projr (fst (create toy_hash 1000 cfg_zero store2)))) = ''uuid-'' \<and>
   valid (fst (validate toy_hash 2000 ''rapids_01234567'' default_options
                 (snd (create toy_hash 1000 cfg_zero store2)))) \<and>
   map_option key_id (key (fst (validate toy_hash 2000 ''rapids_01234567'' default_options
                 (snd (create toy_hash 1000 cfg_zero store2))))) = Some ''uuid-'' \<and>
   valid (fst (validate toy_hash 61000 ''rapids_01234567'' default_options
                 (snd (create toy_hash 1000 cfg_minute store2))))"
proof -
  let ?w = "snd (create toy_hash 1000 cfg_zero store2)"
  let ?v = "snd (create toy_hash 1000 cfg_minute store2)"
  let ?rz = "projr (fst (create toy_hash 1000 cfg_zero store2))"
  let ?rm = "projr (fst (create toy_hash 1000 cfg_minute store2))"
  have cz: "create toy_hash 1000 cfg_zero store2 = (Inr ?rz, ?w)"
    by (rule pair_of_fst_projr[OF create_cfg_zero])
  have cm: "create toy_hash 1000 cfg_minute store2 = (Inr ?rm, ?v)"
    by (rule pair_of_fst_projr[OF create_cfg_minute])
  have xz: "\<forall>e. expiresAt (cr_record ?rz) = Some (Date e) \<longrightarrow> \<not> e < 2000"
    by (simp add: create_cfg_zero)
  have xm: "\<forall>e. expiresAt (cr_record ?rm) = Some (Date e) \<longrightarrow> \<not> e < 61000"
    by (simp add: create_cfg_minute)
  have lz: "\<forall>n c. rateLimit (cr_record ?rz) = Some n \<and> n \<noteq> 0 \<and>
               rate_limit_records ?w (key_id (cr_record ?rz), windowStart 2000) = Some c
               \<longrightarrow> c < n"
    by (simp add: create_rate_limit_records store2_def)
  have lm: "\<forall>n c. rateLimit (cr_record ?rm) = Some n \<and> n \<noteq> 0 \<and>
               rate_limit_records ?v (key_id (cr_record ?rm), windowStart 61000) = Some c
               \<longrightarrow> c < n"
    by (simp add: create_rate_limit_records store2_def)
  have a: "valid (fst (validate toy_hash 2000 ''rapids_01234567'' default_options ?w)) \<and>
    map_option key_id (key (fst (validate toy_hash 2000 ''rapids_01234567'' default_options ?w)))
      = Some ''uuid-''"
    using create_then_validate_roundtrip
      [where hashKey = toy_hash and options = default_options, OF cz xz lz]
    by (simp add: create_cfg_zero)
  have b: "valid (fst (validate toy_hash 61000 ''rapids_01234567'' default_options ?v))"
    using create_then_validate_roundtrip
      [where hashKey = toy_hash and options = default_options, OF cm xm lm]
    by (simp add: create_cfg_minute)
  from a b show ?thesis by (simp add: create_cfg_zero)
qed

text \<open>The \<open>expires_at\<close> column after \<open>create\<close> with \<open>expiresIn\<close> 0 and with 60.\<close>

theorem create_expiresIn_zero_is_null_witness:
  "map expires_at (api_keys (snd (create toy_hash 1000 cfg_zero store2)))
     = [None, Some 5000, None] \<and>
   map expires_at (api_keys (snd (create toy_hash 1000 cfg_minute store2)))
     = [None, Some 5000, Some 61000]"
proof -
  let ?w = "snd (create toy_hash 1000 cfg_zero store2)"
  let ?v = "snd (create toy_hash 1000 cfg_minute store2)"
  from create_expiresIn_zero_is_null[OF pair_of_fst_Inr[OF create_cfg_zero]]
  obtain row where "api_keys ?w = api_keys store2 @ [row]"
    and "cfg_expiresIn cfg_zero = Some 0 \<longrightarrow> expires_at row = None"
    by blast
  then have a: "map expires_at (api_keys ?w) = [None, Some 5000, None]"
    by (simp add: cfg_zero_def store2_def row_live_def row_gone_def)
  from create_expiresIn_zero_is_null[OF pair_of_fst_Inr[OF create_cfg_minute]]
  obtain row' where "api_keys ?v = api_keys store2 @ [row']"
    and "\<forall>e. cfg_expiresIn cfg_minute = Some e \<and> e \<noteq> 0 \<and>
             \<bar>e * 1000\<bar> < 2 ^ 53 \<and> \<bar>1000 + e * 1000\<bar> < 2 ^ 53 \<longrightarrow>
           expires_at row' = Some (1000 + e * 1000)"
    by blast
  then have b: "map expires_at (api_keys ?v) = [None, Some 5000, Some 61000]"
    by (simp add: cfg_zero_def cfg_minute_def store2_def row_live_def row_gone_def)
  from a b show ?thesis by blast
qed

lemma ToIndex_negative_iff: "(ToIndex x < 0) = (x \<le> - 1)"
proof (cases "x < 0")
  case True
  have "(0 < \<lfloor>- x\<rfloor>) = (1 \<le> - x)"
    by (simp add: zero_less_floor)
  with True show ?thesis by (simp add: ToIndex_def)
next
  case False
  then show ?thesis by (simp add: ToIndex_def)
qed





lemma create_negative_length:
  assumes "merged_length config \<le> - 1"
  shows "create hashKey now config w = (Inl RangeError, w)"
  using assms by (simp add: create_unfold ToIndex_negative_iff)







text \<open>
  Claim C4. With an empty prefix and a length of 4, the raw key is four characters
  long, \<open>rawKey.slice(-4)\<close> is the whole of it, and the row that \<open>create\<close> writes
  holds the raw key in its \<open>suffix\<close> column, whatever the hash function; \<open>getById\<close>
  hands it out again.
\<close>

theorem create_short_key_stores_raw_key:
  "fst (create hashKey 1000 cfg_short store0) =
     Inr \<lparr>cr_key = ''0123'',
          cr_record = \<lparr>key_id = ''uuid-'', keyHash = hashKey ''0123'',
            key_prefix = [], key_suffix = ''0123'', key_name = None,
            createdAt = Date 1000, expiresAt = None, lastUsedAt = None, isActive = True,
            key_metadata = ''{}'', key_scopes = [], rateLimit = None\<rparr>\<rparr> \<and>
   map row_suffix (api_keys (snd (create hashKey 1000 cfg_short store0))) = [''0123''] \<and>
   map_option key_suffix (getById ''uuid-'' (snd (create hashKey 1000 cfg_short store0)))
     = Some ''0123''"
  by (simp add: create_unfold new_row_def cfg_short_def cfg_defs store0_def getById_def
        slice_last4_def rowToApiKey_def truthy_num_def Let_def upt_conv_Cons new_Date_def)

section \<open>What the operations keep\<close>

text \<open>
  The \<open>is_active\<close> column holds 0 or 1 in every store that \<open>create\<close>, \<open>validate\<close> and
  \<open>revoke\<close> reach from one where it does (the empty table for one): \<open>create\<close> appends
  a row with 1, \<open>revoke\<close> writes 0, \<open>validate\<close> writes \<open>last_used_at\<close> only.
\<close>

lemma checkRateLimit_api_keys:
  "api_keys (snd (checkRateLimit now keyId limit w)) = api_keys w"
  by (simp add: checkRateLimit_def Let_def split: option.splits)

lemma set_last_used_flags:
  "map is_active (api_keys (set_last_used keyId now w)) = map is_active (api_keys w)"
  by (simp add: set_last_used_def comp_def if_distrib cong: if_cong)

lemma validate_world:
  "snd (validate hashKey now k options w) = w \<or>
   (\<exists>keyId limit. snd (validate hashKey now k options w) = snd (checkRateLimit now keyId limit w)) \<or>
   (\<exists>keyId. snd (validate hashKey now k options w) = set_last_used keyId now w) \<or>
   (\<exists>keyId limit. snd (validate hashKey now k options w) =
       set_last_used keyId now (snd (checkRateLimit now keyId limit w)))"
  by (simp add: validate_def Let_def split_beta split: option.splits) blast

lemma validate_flags:
  "map is_active (api_keys (snd (validate hashKey now k options w))) = map is_active (api_keys w)"
  using validate_world[of hashKey now k options w]
  by (auto simp: set_last_used_flags checkRateLimit_api_keys)

lemma create_rows:
  "api_keys (snd (create hashKey now config w)) = api_keys w \<or>
   (\<exists>body. api_keys (snd (create hashKey now config w)) =
            api_keys w @ [new_row hashKey now config w body])"
  by (simp add: create_unfold Let_def split: sum.splits) blast

lemma create_flags:
  assumes "\<forall>r \<in> set (api_keys w). is_active r = 0 \<or> is_active r = 1"
  shows "\<forall>r \<in> set (api_keys (snd (create hashKey now config w))). is_active r = 0 \<or> is_active r = 1"
  using create_rows[of hashKey now config w] assms
  by (auto simp: new_row_fields)

lemma validate_keeps_flags:
  assumes "\<forall>r \<in> set (api_keys w). is_active r = 0 \<or> is_active r = 1"
  shows "\<forall>r \<in> set (api_keys (snd (validate hashKey now k options w))).
           is_active r = 0 \<or> is_active r = 1"
proof -
  have "set (map is_active (api_keys (snd (validate hashKey now k options w)))) =
        set (map is_active (api_keys w))"
    by (simp only: validate_flags)
  then have "is_active ` set (api_keys (snd (validate hashKey now k options w))) =
        is_active ` set (api_keys w)"
    by (simp only: set_map)
  with assms show ?thesis by (metis imageE imageI)
qed

lemma revoke_keeps_flags:
  assumes "\<forall>r \<in> set (api_keys w). is_active r = 0 \<or> is_active r = 1"
  shows "\<forall>r \<in> set (api_keys (snd (revoke keyId w))). is_active r = 0 \<or> is_active r = 1"
proof
  fix r assume "r \<in> set (api_keys (snd (revoke keyId w)))"
  then have "r \<in> (\<lambda>r. if row_id r = keyId then r\<lparr>is_active := 0\<rparr> else r) ` set (api_keys w)"
    unfolding revoke_rows set_map .
  then obtain r0 where r0: "r0 \<in> set (api_keys w)"
    "r = (if row_id r0 = keyId then r0\<lparr>is_active := 0\<rparr> else r0)"
    by (auto elim: imageE)
  with assms show "is_active r = 0 \<or> is_active r = 1"
    by (cases "row_id r0 = keyId") auto
qed

text \<open>
  The row \<open>create\<close> writes depends on the random characters only through the hash of
  the raw key and its last four characters.
\<close>

lemma new_row_hash_and_suffix_only:
  assumes "hashKey (merged_prefix config @ b1) = hashKey (merged_prefix config @ b2)"
    and "slice_last4 (merged_prefix config @ b1) = slice_last4 (merged_prefix config @ b2)"
  shows "new_row hashKey now config w b1 = new_row hashKey now config w b2"
  using assms by (simp add: new_row_def)

section \<open>The keys that create returns\<close>

text \<open>
  With a length the runtime allocates, one of the five charsets, a UUID not yet in the
  table and no stored hash that the new key could repeat, \<open>create\<close> returns: the raw
  key is the prefix followed by \<open>length\<close> (its fraction dropped) characters of the
  charset.
\<close>

lemma random_chars_defined:
  "\<exists>body. random_chars vs (Chars cs) = Inr body \<and>
          (cs \<noteq> [] \<longrightarrow> length body = length vs \<and> set body \<subseteq> set cs)"
proof (induction vs)
  case Nil
  then show ?case by simp
next
  case (Cons v vs)
  then obtain body where b: "random_chars vs (Chars cs) = Inr body"
    "cs \<noteq> [] \<longrightarrow> length body = length vs \<and> set body \<subseteq> set cs"
    by blast
  have "cs \<noteq> [] \<longrightarrow> cs ! (unat v mod length cs) \<in> set cs"
    by simp
  with b show ?case by simp
qed

lemma CHARSETS_nonempty: "CHARSETS c = Chars cs \<Longrightarrow> cs \<noteq> []"
  by (auto simp: CHARSETS_def split: if_splits)

lemma create_succeeds:
  assumes "0 \<le> ToIndex (merged_length config)"
    and "ToIndex (merged_length config) \<le> max_array_length w"
    and "CHARSETS (merged_charset config) = Chars cs"
    and "\<forall>r \<in> set (api_keys w). row_id r \<noteq> random_uuids w 0"
    and "\<forall>r \<in> set (api_keys w). \<forall>body. key_hash r \<noteq> hashKey (merged_prefix config @ body)"
  shows "\<exists>res w'. create hashKey now config w = (Inr res, w') \<and>
           length (cr_key res) =
             length (merged_prefix config) + nat (ToIndex (merged_length config)) \<and>
           set (drop (length (merged_prefix config)) (cr_key res)) \<subseteq> set cs"
proof -
  obtain body where b:
    "random_chars (map (random_values w) [0..<nat (ToIndex (merged_length config))]) (Chars cs)
       = Inr body"
    "length body = nat (ToIndex (merged_length config))" "set body \<subseteq> set cs"
    using random_chars_defined
      [of "map (random_values w) [0..<nat (ToIndex (merged_length config))]" cs]
      CHARSETS_nonempty[OF assms(3)]
    by auto
  have nocol: "\<not> (\<exists>r \<in> set (api_keys w).
                   row_id r = row_id (new_row hashKey now config w body) \<or>
                   key_hash r = key_hash (new_row hashKey now config w body))"
    using assms(4,5) by (auto simp: new_row_fields)
  have "fst (create hashKey now config w) =
          Inr \<lparr>cr_key = merged_prefix config @ body,
               cr_record = rowToApiKey (new_row hashKey now config w body)\<rparr>"
    using assms(1,2,3) b(1) nocol by (simp add: create_unfold Let_def)
  then have c: "create hashKey now config w =
          (Inr \<lparr>cr_key = merged_prefix config @ body,
               cr_record = rowToApiKey (new_row hashKey now config w body)\<rparr>,
           snd (create hashKey now config w))"
    by (rule pair_of_fst_Inr)
  let ?res = "\<lparr>cr_key = merged_prefix config @ body,
               cr_record = rowToApiKey (new_row hashKey now config w body)\<rparr>"
  have "length (cr_key ?res) =
          length (merged_prefix config) + nat (ToIndex (merged_length config)) \<and>
        set (drop (length (merged_prefix config)) (cr_key ?res)) \<subseteq> set cs"
    using b(2,3) by simp
  with c show ?thesis by blast
qed

end
